theory Spec2Isabelle
  imports Main
begin

section \<open>Python values and the built-in operations the exporter applies to them\<close>

text \<open>
  The program is a Python script that talks to a JSON API. What \<open>json.loads\<close> returns is
  a dynamically typed value, and every subscript, iteration, conversion and comparison
  the script applies to it can raise. The values and these operations are modelled first,
  with the exception each one raises as the \<open>Inl\<close> branch of a sum.

  Strings are \<open>char list\<close>; a character is read as a code point below 256. A float is
  represented by the two things the script can observe of it: its \<open>repr\<close> text and its
  integer part (used by \<open>int()\<close>, meaningful for finite floats only). An integer is one
  that \<open>json.loads\<close> or \<open>int()\<close> can return, of at most 4300 digits, so that \<open>str\<close> of it
  does not raise. An object is the list of its items in insertion order; a lookup takes
  the first item with the key. The wording of the interpreter's own messages is that of
  CPython 3.11.
\<close>

datatype exc =
    KeyError string
  | TypeError string
  | IndexError string
  | ValueError string
  | OverflowError string
  | CsvError string
  | ConnectionError string
  | KeyboardInterrupt
  | SystemExit string
  | OtherException string

datatype json =
    JNull
  | JBool bool
  | JInt int
  | JFloat string int
  | JStr string
  | JArr "json list"
  | JObj "(string \<times> json) list"

subsection \<open>Strings\<close>

definition NL :: char where
  "NL = CHR 0x0A"

definition CR :: char where
  "CR = CHR 0x0D"

definition DQ :: char where
  "DQ = CHR 0x22"

definition SQ :: char where
  "SQ = CHR 0x27"

definition BSL :: char where
  "BSL = CHR 0x5C"

text \<open>\<open>str.isspace\<close> on code points below 256: the characters \<open>str.strip()\<close> removes.\<close>

definition py_isspace :: "char \<Rightarrow> bool" where
  "py_isspace c =
     (let n = (of_char c :: nat)
      in (9 \<le> n \<and> n \<le> 13) \<or> (28 \<le> n \<and> n \<le> 32) \<or> n = 133 \<or> n = 160)"

definition strip :: "string \<Rightarrow> string" where
  "strip s = rev (dropWhile py_isspace (rev (dropWhile py_isspace s)))"

text \<open>\<open>s.split(c)\<close> for a one-character separator: always at least one segment.\<close>

fun split :: "char \<Rightarrow> string \<Rightarrow> string list" where
  "split c [] = [[]]"
| "split c (x # xs) =
     (if x = c then [] # split c xs
      else (case split c xs of
              [] \<Rightarrow> [[x]]
            | w # ws \<Rightarrow> (x # w) # ws))"

text \<open>\<open>sep.join(xs)\<close>.\<close>

fun join :: "string \<Rightarrow> string list \<Rightarrow> string" where
  "join sep [] = []"
| "join sep [x] = x"
| "join sep (x # y # ys) = x @ sep @ join sep (y # ys)"

definition digit_char :: "nat \<Rightarrow> char" where
  "digit_char d = char_of (of_char (CHR ''0'') + d)"

fun str_nat :: "nat \<Rightarrow> string" where
  "str_nat n = (if n < 10 then [digit_char n] else str_nat (n div 10) @ [digit_char (n mod 10)])"

declare str_nat.simps [simp del]

definition str_int :: "int \<Rightarrow> string" where
  "str_int i = (if i < 0 then CHR ''-'' # str_nat (nat (- i)) else str_nat (nat i))"

definition hex_char :: "nat \<Rightarrow> char" where
  "hex_char d = (if d < 10 then digit_char d else char_of (of_char (CHR ''a'') + (d - 10)))"

text \<open>
  \<open>repr\<close> of a string: single quotes unless the text has a single quote and no double
  quote; the backslash and the chosen quote are escaped, tab, newline and carriage return
  get their letters, and every other non-printable character is written \<open>\xhh\<close>.
\<close>

definition py_printable :: "char \<Rightarrow> bool" where
  "py_printable c =
     (let n = (of_char c :: nat)
      in (32 \<le> n \<and> n < 127) \<or> (161 \<le> n \<and> n \<noteq> 173))"

definition repr_char :: "char \<Rightarrow> char \<Rightarrow> string" where
  "repr_char q c =
     (if c = BSL \<or> c = q then [BSL, c]
      else if c = CHR 0x09 then [BSL, CHR ''t'']
      else if c = NL then [BSL, CHR ''n'']
      else if c = CR then [BSL, CHR ''r'']
      else if py_printable c then [c]
      else [BSL, CHR ''x'', hex_char ((of_char c :: nat) div 16), hex_char ((of_char c :: nat) mod 16)])"

definition repr_str :: "string \<Rightarrow> string" where
  "repr_str s =
     (let q = (if SQ \<in> set s \<and> DQ \<notin> set s then DQ else SQ)
      in [q] @ concat (map (repr_char q) s) @ [q])"

subsection \<open>\<open>repr\<close>, \<open>str\<close>, truth value, comparison with 1\<close>

fun py_repr :: "json \<Rightarrow> string"
  and repr_items :: "json list \<Rightarrow> string"
  and repr_pairs :: "(string \<times> json) list \<Rightarrow> string"
  and repr_pair :: "string \<times> json \<Rightarrow> string"
where
  "py_repr JNull = ''None''"
| "py_repr (JBool b) = (if b then ''True'' else ''False'')"
| "py_repr (JInt i) = str_int i"
| "py_repr (JFloat r t) = r"
| "py_repr (JStr s) = repr_str s"
| "py_repr (JArr xs) = ''['' @ repr_items xs @ '']''"
| "py_repr (JObj kvs) = ''{'' @ repr_pairs kvs @ ''}''"
| "repr_items [] = []"
| "repr_items [x] = py_repr x"
| "repr_items (x # y # ys) = py_repr x @ '', '' @ repr_items (y # ys)"
| "repr_pairs [] = []"
| "repr_pairs [p] = repr_pair p"
| "repr_pairs (p # q # ps) = repr_pair p @ '', '' @ repr_pairs (q # ps)"
| "repr_pair (k, v) = repr_str k @ '': '' @ py_repr v"

text \<open>\<open>str(v)\<close>, which is also what an f-string field \<open>{v}\<close> renders: the text itself for a
  string, the \<open>repr\<close> for everything else, so \<open>None\<close> renders as \<open>None\<close>.\<close>

fun py_str :: "json \<Rightarrow> string" where
  "py_str (JStr s) = s"
| "py_str v = py_repr v"

fun type_name :: "json \<Rightarrow> string" where
  "type_name JNull = ''NoneType''"
| "type_name (JBool b) = ''bool''"
| "type_name (JInt i) = ''int''"
| "type_name (JFloat r t) = ''float''"
| "type_name (JStr s) = ''str''"
| "type_name (JArr xs) = ''list''"
| "type_name (JObj kvs) = ''dict''"

text \<open>The truth value of \<open>not v\<close>'s operand.\<close>

fun truthy :: "json \<Rightarrow> bool" where
  "truthy JNull = False"
| "truthy (JBool b) = b"
| "truthy (JInt i) = (i \<noteq> 0)"
| "truthy (JFloat r t) = (r \<noteq> ''0.0'' \<and> r \<noteq> ''-0.0'')"
| "truthy (JStr s) = (s \<noteq> [])"
| "truthy (JArr xs) = (xs \<noteq> [])"
| "truthy (JObj kvs) = (kvs \<noteq> [])"

text \<open>\<open>v == 1\<close>: true for the integer 1, for \<open>True\<close> and for the float \<open>1.0\<close>.\<close>

fun eq_one :: "json \<Rightarrow> bool" where
  "eq_one (JInt i) = (i = 1)"
| "eq_one (JBool b) = b"
| "eq_one (JFloat r t) = (r = ''1.0'')"
| "eq_one v = False"

subsection \<open>Subscripts and iteration\<close>

definition not_subscriptable :: "json \<Rightarrow> exc" where
  "not_subscriptable v = TypeError ([SQ] @ type_name v @ [SQ] @ '' object is not subscriptable'')"

text \<open>\<open>v[key]\<close> for a string key. The first argument is the result of the expression to the
  left, so that a chain \<open>v['a']['b']\<close> reads as in the source and stops at its first error.\<close>

fun getitem :: "exc + json \<Rightarrow> string \<Rightarrow> exc + json" where
  "getitem (Inl e) key = Inl e"
| "getitem (Inr (JObj kvs)) key =
     (case map_of kvs key of
        None \<Rightarrow> Inl (KeyError (repr_str key))
      | Some v \<Rightarrow> Inr v)"
| "getitem (Inr (JArr xs)) key = Inl (TypeError ''list indices must be integers or slices, not str'')"
| "getitem (Inr (JStr s)) key = Inl (TypeError (''string indices must be integers, not '' @ [SQ] @ ''str'' @ [SQ]))"
| "getitem (Inr v) key = Inl (not_subscriptable v)"

text \<open>\<open>v[i]\<close> for a non-negative integer index.\<close>

fun getindex :: "exc + json \<Rightarrow> nat \<Rightarrow> exc + json" where
  "getindex (Inl e) i = Inl e"
| "getindex (Inr (JArr xs)) i =
     (if i < length xs then Inr (xs ! i) else Inl (IndexError ''list index out of range''))"
| "getindex (Inr (JStr s)) i =
     (if i < length s then Inr (JStr [s ! i]) else Inl (IndexError ''string index out of range''))"
| "getindex (Inr (JObj kvs)) i = Inl (KeyError (str_nat i))"
| "getindex (Inr v) i = Inl (not_subscriptable v)"

text \<open>\<open>for _ in v\<close>: the number of times the body is entered, if \<open>v\<close> can be iterated.\<close>

fun iterations :: "json \<Rightarrow> exc + nat" where
  "iterations (JObj kvs) = Inr (length kvs)"
| "iterations (JArr xs) = Inr (length xs)"
| "iterations (JStr s) = Inr (length s)"
| "iterations v = Inl (TypeError ([SQ] @ type_name v @ [SQ] @ '' object is not iterable''))"

subsection \<open>\<open>int()\<close>\<close>

text \<open>
  \<open>int(s)\<close> for a string, as CPython 3.11 reads it in base 10: whitespace is skipped at
  both ends (tab to carriage return, space, and the two non-ASCII spaces below 256; not
  the separators \<open>\x1c\<close> to \<open>\x1f\<close> that \<open>strip\<close> removes), then an optional sign, then a
  run of digits with single underscores allowed between them. A run of more than 4300
  digits is refused before anything after the run is looked at.
\<close>

definition int_isspace :: "char \<Rightarrow> bool" where
  "int_isspace c =
     (let n = (of_char c :: nat)
      in (9 \<le> n \<and> n \<le> 13) \<or> n = 32 \<or> n = 133 \<or> n = 160)"

definition int_strip :: "string \<Rightarrow> string" where
  "int_strip s = rev (dropWhile int_isspace (rev (dropWhile int_isspace s)))"

definition is_digit :: "char \<Rightarrow> bool" where
  "is_digit c = (let n = (of_char c :: nat) in 48 \<le> n \<and> n \<le> 57)"

definition in_run :: "char \<Rightarrow> bool" where
  "in_run c = (is_digit c \<or> c = CHR ''_'')"

text \<open>The value of a run of digits and underscores, read left to right; the flag says
  whether the previous character was a digit. No value for an empty run, for an
  underscore at either end and for two underscores in a row.\<close>

fun digits_value :: "bool \<Rightarrow> nat \<Rightarrow> string \<Rightarrow> nat option" where
  "digits_value prev acc [] = (if prev then Some acc else None)"
| "digits_value prev acc (c # cs) =
     (if is_digit c then digits_value True (10 * acc + ((of_char c :: nat) - 48)) cs
      else if c = CHR ''_'' \<and> prev then digits_value False acc cs
      else None)"

definition invalid_literal :: "string \<Rightarrow> exc" where
  "invalid_literal s = ValueError (''invalid literal for int() with base 10: '' @ repr_str s)"

definition exceeds_limit :: "nat \<Rightarrow> exc" where
  "exceeds_limit n =
     ValueError (''Exceeds the limit (4300 digits) for integer string conversion: value has ''
       @ str_nat n @ '' digits; use sys.set_int_max_str_digits() to increase the limit'')"

definition unsigned_of_str :: "string \<Rightarrow> string \<Rightarrow> exc + nat" where
  "unsigned_of_str s body =
     (let run = takeWhile in_run body;
          rest = dropWhile in_run body;
          n = length (filter is_digit run)
      in case digits_value False 0 run of
           None \<Rightarrow> Inl (invalid_literal s)
         | Some v \<Rightarrow>
             if 4300 < n then Inl (exceeds_limit n)
             else if rest \<noteq> [] then Inl (invalid_literal s)
             else Inr v)"

definition int_of_str :: "string \<Rightarrow> exc + int" where
  "int_of_str s =
     (case int_strip s of
        [] \<Rightarrow> Inl (invalid_literal s)
      | c # cs \<Rightarrow>
          if c = CHR ''-'' then
            (case unsigned_of_str s cs of Inl e \<Rightarrow> Inl e | Inr v \<Rightarrow> Inr (- int v))
          else if c = CHR ''+'' then
            (case unsigned_of_str s cs of Inl e \<Rightarrow> Inl e | Inr v \<Rightarrow> Inr (int v))
          else
            (case unsigned_of_str s (c # cs) of Inl e \<Rightarrow> Inl e | Inr v \<Rightarrow> Inr (int v)))"

fun py_int :: "exc + json \<Rightarrow> exc + int" where
  "py_int (Inl e) = Inl e"
| "py_int (Inr (JInt i)) = Inr i"
| "py_int (Inr (JBool b)) = Inr (if b then 1 else 0)"
| "py_int (Inr (JFloat r t)) =
     (if r = ''nan'' then Inl (ValueError ''cannot convert float NaN to integer'')
      else if r = ''inf'' \<or> r = ''-inf'' then Inl (OverflowError ''cannot convert float infinity to integer'')
      else Inr t)"
| "py_int (Inr (JStr s)) = int_of_str s"
| "py_int (Inr v) =
     Inl (TypeError (''int() argument must be a string, a bytes-like object or a real number, not ''
            @ [SQ] @ type_name v @ [SQ]))"

section \<open>The world outside the script\<close>

text \<open>
  The script reads its configuration once at start-up (\<open>BASE_URL\<close>, \<open>TOKEN\<close>, \<open>USER\<close>,
  \<open>FILE_NAME\<close>), sends HTTP requests, prints, drives a spinner and writes one file. The
  configuration and the outside world are the environment; everything the script does to
  the world is appended to a trace of events, in the order it happens.

  The server together with \<open>requests.get\<close> and \<open>json.loads\<close> is a function from the number
  of requests sent before and the parameters of this one to a reply: either the decoded
  body or the exception the call raises. \<open>localdate\<close> stands for
  \<open>datetime.fromtimestamp(t).strftime('%Y-%m-%d')\<close>, which depends on the time zone of the
  machine and raises for a timestamp out of range. Opening and writing the file are taken
  to succeed. What is recorded as written is the text the script hands to the file
  object: the file is opened without \<open>newline=''\<close>, so on a platform whose line separator
  is not \<open>\n\<close> the file object replaces each \<open>\n\<close> on its way to the disk, and that
  replacement is not part of the model.
\<close>

datatype param = PStr string | PInt int | PNone

datatype reply = Body json | Raises exc

datatype event =
    Request string "(string \<times> param) list"
  | Print string
  | SpinnerStart string
  | SpinnerStop
  | FileOpen string
  | FileWrite string
  | FileClose

type_synonym trace = "event list"

record env =
  server :: "nat \<Rightarrow> (string \<times> param) list \<Rightarrow> reply"
  localdate :: "int \<Rightarrow> exc + string"
  BASE_URL :: string
  TOKEN :: string
  USER :: string
  FILE_NAME :: string

fun is_request :: "event \<Rightarrow> bool" where
  "is_request (Request url ps) = True"
| "is_request ev = False"

fun is_file_event :: "event \<Rightarrow> bool" where
  "is_file_event (FileOpen f) = True"
| "is_file_event (FileWrite s) = True"
| "is_file_event FileClose = True"
| "is_file_event ev = False"

definition ncalls :: "trace \<Rightarrow> nat" where
  "ncalls tr = length (filter is_request tr)"

text \<open>\<open>d[k] = v\<close> on a dictionary kept in insertion order.\<close>

fun dict_set :: "(string \<times> 'v) list \<Rightarrow> string \<Rightarrow> 'v \<Rightarrow> (string \<times> 'v) list" where
  "dict_set [] k v = [(k, v)]"
| "dict_set ((k', v') # kvs) k v =
     (if k' = k then (k, v) # kvs else (k', v') # dict_set kvs k v)"

text \<open>What is in the output file after the run: nothing if it was never opened, else what
  was written to it (it is opened with mode \<open>'w'\<close>, at most once).\<close>

fun written :: "trace \<Rightarrow> string" where
  "written [] = []"
| "written (FileWrite s # tr) = s @ written tr"
| "written (ev # tr) = written tr"

definition file_content :: "trace \<Rightarrow> string option" where
  "file_content tr = (if list_ex is_file_event tr then Some (written tr) else None)"

section \<open>The script\<close>

subsection \<open>\<open>api_handler\<close>\<close>

text \<open>\<open>except exceptions.ConnectionError as e: exit(str(e) + '\n' + 'Base URL invalid, ...')\<close>;
  any other exception of the call is not caught.\<close>

fun api_except :: "exc \<Rightarrow> exc" where
  "api_except (ConnectionError e) = SystemExit (e @ [NL] @ ''Base URL invalid, please try again'')"
| "api_except x = x"

definition api_handler :: "env \<Rightarrow> (string \<times> param) list \<Rightarrow> trace \<Rightarrow> (exc + json) \<times> trace" where
  "api_handler env params tr =
     (let params' = dict_set params ''apikey'' (PStr (TOKEN env));
          tr' = tr @ [Request (BASE_URL env) params']
      in case server env (ncalls tr) params' of
           Raises x \<Rightarrow> (Inl (api_except x), tr')
         | Body j \<Rightarrow> (Inr j, tr'))"

subsection \<open>\<open>rating_handler\<close>\<close>

text \<open>The loop over the decoded response returns in its first pass; over an empty response
  it is never entered and the function returns \<open>None\<close>.\<close>

definition rating_of :: "json \<Rightarrow> exc + json" where
  "rating_of json_data =
     (case iterations json_data of
        Inl e \<Rightarrow> Inl e
      | Inr 0 \<Rightarrow> Inr JNull
      | Inr (Suc n) \<Rightarrow>
          (case getitem (getitem (Inr json_data) ''response'') ''data'' of
             Inl e \<Rightarrow> Inl e
           | Inr d \<Rightarrow>
               if \<not> truthy d then Inr JNull
               else getitem (getitem (getitem (Inr json_data) ''response'') ''data'') ''user_rating''))"

definition rating_handler :: "env \<Rightarrow> string \<Rightarrow> trace \<Rightarrow> (exc + json) \<times> trace" where
  "rating_handler env rating tr =
     (case api_handler env [(''cmd'', PStr ''get_metadata''), (''rating_key'', PStr rating)] tr of
        (Inl e, tr') \<Rightarrow> (Inl e, tr')
      | (Inr json_data, tr') \<Rightarrow> (rating_of json_data, tr'))"

subsection \<open>\<open>get_length\<close>\<close>

text \<open>\<open>except KeyError: exit('API key invalid, please try again')\<close>, around the lookup and
  the conversion only.\<close>

fun length_except :: "exc \<Rightarrow> exc" where
  "length_except (KeyError k) = SystemExit ''API key invalid, please try again''"
| "length_except x = x"

definition length_of :: "json \<Rightarrow> exc + int option" where
  "length_of json_data =
     (case iterations json_data of
        Inl e \<Rightarrow> Inl e
      | Inr 0 \<Rightarrow> Inr None
      | Inr (Suc n) \<Rightarrow>
          (case py_int (getitem (getitem (getitem (Inr json_data) ''response'') ''data'') ''recordsFiltered'') of
             Inl e \<Rightarrow> Inl (length_except e)
           | Inr i \<Rightarrow> Inr (Some i)))"

definition get_length :: "env \<Rightarrow> trace \<Rightarrow> (exc + int option) \<times> trace" where
  "get_length env tr =
     (case api_handler env
             [(''cmd'', PStr ''get_history''), (''media_type'', PStr ''movie''), (''search'', PStr (USER env))] tr of
        (Inl e, tr') \<Rightarrow> (Inl e, tr')
      | (Inr json_data, tr') \<Rightarrow> (length_of json_data, tr'))"

subsection \<open>\<open>json_parser\<close>\<close>

text \<open>\<open>json_data['response']['data']['data'][count][key]\<close>\<close>

definition field :: "json \<Rightarrow> nat \<Rightarrow> string \<Rightarrow> exc + json" where
  "field json_data count key =
     getitem (getindex (getitem (getitem (getitem (Inr json_data) ''response'') ''data'') ''data'') count) key"

text \<open>\<open>' '.join([a.strip() for a in name.split('\n') if a])\<close>: the condition \<open>if a\<close> tests
  the segment as it was split, before \<open>strip\<close>.\<close>

definition normalize_title :: "string \<Rightarrow> string" where
  "normalize_title name = join '' '' (map strip (filter (\<lambda>a. a \<noteq> []) (split NL name)))"

text \<open>The title of the row, from the text of the record's title:
  \<open>'"%s"' % ' '.join(...) if ',' in name else name\<close>. The conditional expression binds weaker
  than \<open>%\<close>, so its \<open>else\<close> branch is the name as it came.\<close>

definition render_title :: "string \<Rightarrow> string" where
  "render_title name =
     (if CHR '','' \<in> set name then [DQ] @ normalize_title name @ [DQ] else name)"

text \<open>\<open>movies.append(row) if row not in movies else None\<close>\<close>

definition offer :: "string list \<Rightarrow> string \<Rightarrow> string list" where
  "offer movies row = (if row \<in> set movies then movies else movies @ [row])"

text \<open>The body of \<open>if watched_status == 1:\<close>. The fields are read in the order of the
  source, so the rating is requested only once title, year and rating key have been read,
  and before the date is.\<close>

definition add_movie :: "env \<Rightarrow> json \<Rightarrow> nat \<Rightarrow> string list \<Rightarrow> trace \<Rightarrow> (exc + string list) \<times> trace" where
  "add_movie env json_data count movies tr =
     (case field json_data count ''title'' of
        Inl e \<Rightarrow> (Inl e, tr)
      | Inr n \<Rightarrow>
     (case field json_data count ''year'' of
        Inl e \<Rightarrow> (Inl e, tr)
      | Inr y \<Rightarrow>
     (case field json_data count ''rating_key'' of
        Inl e \<Rightarrow> (Inl e, tr)
      | Inr k \<Rightarrow>
     (case rating_handler env (py_str k) tr of
        (Inl e, tr1) \<Rightarrow> (Inl e, tr1)
      | (Inr rating10, tr1) \<Rightarrow>
     (case py_int (field json_data count ''date'') of
        Inl e \<Rightarrow> (Inl e, tr1)
      | Inr t \<Rightarrow>
     (case localdate env t of
        Inl e \<Rightarrow> (Inl e, tr1)
      | Inr watched_date \<Rightarrow>
          (let title = render_title (py_str n);
               row = title @ '','' @ py_str y @ '','' @ py_str rating10 @ '','' @ watched_date;
               movies' = offer movies row
           in (Inr movies', tr1 @ [SpinnerStart (str_nat (length movies') @ '' -> '' @ title)]))))))))"

text \<open>One pass of the \<open>while\<close> body up to \<open>count += 1\<close>: read the record's
  \<open>watched_status\<close> and, if it equals 1, build and add its row.\<close>

definition visit :: "env \<Rightarrow> json \<Rightarrow> nat \<Rightarrow> string list \<Rightarrow> trace \<Rightarrow> (exc + string list) \<times> trace" where
  "visit env json_data count movies tr =
     (case field json_data count ''watched_status'' of
        Inl e \<Rightarrow> (Inl e, tr)
      | Inr watched_status \<Rightarrow>
          if eq_one watched_status then add_movie env json_data count movies tr
          else (Inr movies, tr))"

text \<open>How the \<open>while\<close> loop ends: by the \<open>return\<close> in its body, or by its condition.\<close>

datatype loop_end = Returned "string list" | Exhausted "string list"

function while_loop :: "env \<Rightarrow> int \<Rightarrow> json \<Rightarrow> nat \<Rightarrow> string list \<Rightarrow> trace \<Rightarrow> (exc + loop_end) \<times> trace" where
  "while_loop env total_count json_data count movies tr =
     (if int count \<le> total_count then
        (case visit env json_data count movies tr of
           (Inl e, tr1) \<Rightarrow> (Inl e, tr1)
         | (Inr movies1, tr1) \<Rightarrow>
             if int (count + 1) = total_count then (Inr (Returned movies1), tr1 @ [SpinnerStop])
             else while_loop env total_count json_data (count + 1) movies1 tr1)
      else (Inr (Exhausted movies), tr))"
  by pat_completeness auto
termination
  by (relation "measure (\<lambda>(env, total_count, json_data, count, movies, tr). nat (total_count + 1 - int count))") auto

declare while_loop.simps [simp del]

text \<open>\<open>for _ in json_data:\<close> with the number of passes left. Each pass starts \<open>count\<close> at 0
  again and keeps \<open>movies\<close>; when the passes are used up the function falls off its end and
  returns \<open>None\<close>. With \<open>total_count\<close> being \<open>None\<close> the comparison \<open>count <= total_count\<close>
  raises.\<close>

fun for_loop :: "env \<Rightarrow> int option \<Rightarrow> json \<Rightarrow> nat \<Rightarrow> string list \<Rightarrow> trace
                 \<Rightarrow> (exc + (string list \<times> nat) option) \<times> trace" where
  "for_loop env total_count json_data 0 movies tr = (Inr None, tr)"
| "for_loop env total_count json_data (Suc n) movies tr =
     (case total_count of
        None \<Rightarrow>
          (Inl (TypeError ([SQ] @ ''<='' @ [SQ] @ '' not supported between instances of ''
                  @ [SQ] @ ''int'' @ [SQ] @ '' and '' @ [SQ] @ ''NoneType'' @ [SQ])), tr)
      | Some tc \<Rightarrow>
          (case while_loop env tc json_data 0 movies tr of
             (Inl e, tr1) \<Rightarrow> (Inl e, tr1)
           | (Inr (Returned movies1), tr1) \<Rightarrow> (Inr (Some (movies1, length movies1)), tr1)
           | (Inr (Exhausted movies1), tr1) \<Rightarrow> for_loop env total_count json_data n movies1 tr1))"

text \<open>\<open>except IndexError as e: exit(str(e) + '\n' + 'Index Error, ...')\<close>\<close>

fun parser_except :: "exc \<Rightarrow> exc" where
  "parser_except (IndexError m) =
     SystemExit (m @ [NL] @ ''Index Error, please check your configuration and try again'')"
| "parser_except x = x"

definition length_param :: "int option \<Rightarrow> param" where
  "length_param total_count = (case total_count of None \<Rightarrow> PNone | Some i \<Rightarrow> PInt i)"

definition json_parser :: "env \<Rightarrow> trace \<Rightarrow> (exc + (string list \<times> nat) option) \<times> trace" where
  "json_parser env tr =
     (case get_length env tr of
        (Inl e, tr1) \<Rightarrow> (Inl e, tr1)
      | (Inr total_count, tr1) \<Rightarrow>
     (case api_handler env
             [(''cmd'', PStr ''get_history''), (''media_type'', PStr ''movie''), (''search'', PStr (USER env)),
              (''length'', length_param total_count)] tr1 of
        (Inl e, tr2) \<Rightarrow> (Inl e, tr2)
      | (Inr json_data, tr2) \<Rightarrow>
          (let tr3 = tr2 @ [Print (''Exporting movies to '' @ FILE_NAME env @ '' for user '' @ USER env @ '': '')]
           in case (case iterations json_data of
                      Inl e \<Rightarrow> (Inl e, tr3)
                    | Inr n \<Rightarrow> for_loop env total_count json_data n [] tr3) of
                (Inl e, tr4) \<Rightarrow> (Inl (parser_except e), tr4)
              | (Inr r, tr4) \<Rightarrow> (Inr r, tr4))))"

subsection \<open>\<open>to_csv\<close> and \<open>main\<close>\<close>

text \<open>
  \<open>csv.writer(f, quoting=QUOTE_NONE, quotechar=None, delimiter='\n').writerow(row)\<close>:
  the text written for one record. With no quoting and no escape character the writer
  refuses a field that holds the delimiter or a character of the line terminator
  \<open>'\r\n'\<close>, and a record that is a single empty field; on refusal nothing is written.
\<close>

definition csv_writerow :: "string list \<Rightarrow> exc + string" where
  "csv_writerow row =
     (if list_ex (\<lambda>f. NL \<in> set f \<or> CR \<in> set f) row
        then Inl (CsvError ''need to escape, but no escapechar set'')
      else if row = [[]]
        then Inl (CsvError ''single empty field record must be quoted'')
      else Inr (join [NL] row @ [CR, NL]))"

text \<open>\<open>except TypeError as e: exit(str(e) + '\n' + 'Invalid user, ...')\<close> and
  \<open>except KeyboardInterrupt: exit('\n' + f'Exporting movies to {FILE_NAME} has been halted.')\<close>\<close>

fun csv_except :: "env \<Rightarrow> exc \<Rightarrow> exc" where
  "csv_except env (TypeError m) =
     SystemExit (m @ [NL] @ ''Invalid user, please check your configuration and try again'')"
| "csv_except env KeyboardInterrupt =
     SystemExit ([NL] @ ''Exporting movies to '' @ FILE_NAME env @ '' has been halted.'')"
| "csv_except env x = x"

definition header :: string where
  "header = ''Title,Year,Rating10,WatchedDate''"

definition to_csv :: "env \<Rightarrow> trace \<Rightarrow> (exc + unit) \<times> trace" where
  "to_csv env tr =
     (case json_parser env tr of
        (Inl e, tr1) \<Rightarrow> (Inl (csv_except env e), tr1)
      | (Inr None, tr1) \<Rightarrow>
          (Inl (csv_except env (TypeError ''cannot unpack non-iterable NoneType object'')), tr1)
      | (Inr (Some (movies, movies_length)), tr1) \<Rightarrow>
          (let tr2 = tr1 @ [FileOpen (FILE_NAME env)]
           in case csv_writerow [header] of
                Inl e \<Rightarrow> (Inl (csv_except env e), tr2 @ [FileClose])
              | Inr line1 \<Rightarrow>
                  (case csv_writerow movies of
                     Inl e \<Rightarrow> (Inl (csv_except env e), tr2 @ [FileWrite line1, FileClose])
                   | Inr lines \<Rightarrow>
                       (Inr (),
                        tr2 @ [FileWrite line1, FileWrite lines, FileClose,
                               Print (''Exported '' @ str_nat movies_length @ '' filtered movies to ''
                                        @ FILE_NAME env @ ''.'')]))))"

text \<open>A run of the program: \<open>Inr ()\<close> is normal termination, \<open>Inl (SystemExit m)\<close> is
  \<open>exit(m)\<close>, any other \<open>Inl\<close> is an exception nobody caught.\<close>

definition main :: "env \<Rightarrow> (exc + unit) \<times> trace" where
  "main env = to_csv env []"

section \<open>Definitions used to state the properties\<close>

text \<open>Title normalization in the words of the specification: split the raw title on
  embedded newlines, strip whitespace from each resulting segment, drop empty segments,
  rejoin with single spaces.\<close>

definition spec_normalize :: "string \<Rightarrow> string" where
  "spec_normalize name = join '' '' (filter (\<lambda>a. a \<noteq> []) (map strip (split NL name)))"

text \<open>The value at a path of keys, if every step is a key of an object.\<close>

fun at_path :: "json \<Rightarrow> string list \<Rightarrow> json option" where
  "at_path v [] = Some v"
| "at_path (JObj kvs) (k # ks) =
     (case map_of kvs k of None \<Rightarrow> None | Some v \<Rightarrow> at_path v ks)"
| "at_path v (k # ks) = None"

text \<open>The path ends at an object that lacks the next key (and not at a value that is no
  object).\<close>

fun missing_key :: "json \<Rightarrow> string list \<Rightarrow> bool" where
  "missing_key (JObj kvs) (k # ks) =
     (case map_of kvs k of None \<Rightarrow> True | Some v \<Rightarrow> missing_key v ks)"
| "missing_key v ks = False"

text \<open>The parameters of the three requests, with the API key appended by \<open>api_handler\<close>.\<close>

definition count_params :: "env \<Rightarrow> (string \<times> param) list" where
  "count_params env =
     [(''cmd'', PStr ''get_history''), (''media_type'', PStr ''movie''), (''search'', PStr (USER env)),
      (''apikey'', PStr (TOKEN env))]"

definition fetch_params :: "env \<Rightarrow> int option \<Rightarrow> (string \<times> param) list" where
  "fetch_params env total_count =
     [(''cmd'', PStr ''get_history''), (''media_type'', PStr ''movie''), (''search'', PStr (USER env)),
      (''length'', length_param total_count), (''apikey'', PStr (TOKEN env))]"

definition rating_params :: "env \<Rightarrow> string \<Rightarrow> (string \<times> param) list" where
  "rating_params env key =
     [(''cmd'', PStr ''get_metadata''), (''rating_key'', PStr key), (''apikey'', PStr (TOKEN env))]"

text \<open>An environment for examples: a given server, a fixed date and configuration.\<close>

definition example_env :: "(nat \<Rightarrow> (string \<times> param) list \<Rightarrow> reply) \<Rightarrow> env" where
  "example_env srv =
     \<lparr>server = srv, localdate = (\<lambda>t. Inr ''2023-11-14''), BASE_URL = ''http://localhost:8181/api/v2'',
      TOKEN = ''token'', USER = ''user'', FILE_NAME = ''output.csv''\<rparr>"

text \<open>What has happened when the \<open>for\<close> loop of \<open>json_parser\<close> starts: the two history
  requests and the announcement.\<close>

definition start_trace :: "env \<Rightarrow> int option \<Rightarrow> trace" where
  "start_trace env total_count =
     [Request (BASE_URL env) (count_params env), Request (BASE_URL env) (fetch_params env total_count),
      Print (''Exporting movies to '' @ FILE_NAME env @ '' for user '' @ USER env @ '': '')]"

text \<open>Two servers for examples: one that rejects the API key the way Tautulli does, with an
  empty \<open>data\<close> object, and one whose \<open>response\<close> is not an object.\<close>

definition rejected_env :: env where
  "rejected_env = example_env (\<lambda>k ps. Body (JObj [(''response'',
      JObj [(''result'', JStr ''error''), (''message'', JStr ''Invalid apikey''), (''data'', JObj [])])]))"

definition no_object_env :: env where
  "no_object_env = example_env (\<lambda>k ps. Body (JObj [(''response'', JArr [])]))"

text \<open>A server whose history is empty, and one that answers the full fetch with an empty
  object.\<close>

definition empty_history_env :: env where
  "empty_history_env = example_env (\<lambda>k ps. Body (JObj [(''response'',
      JObj [(''result'', JStr ''success''),
            (''data'', JObj [(''recordsFiltered'', JInt 0), (''recordsTotal'', JInt 0), (''data'', JArr [])])])]))"

definition empty_body_env :: env where
  "empty_body_env = example_env (\<lambda>k ps. if k = 0
      then Body (JObj [(''response'', JObj [(''data'', JObj [(''recordsFiltered'', JInt 3)])])])
      else Body (JObj []))"

text \<open>A server with no rating for any item, and a history of one watched movie.\<close>

definition unrated_env :: env where
  "unrated_env = example_env (\<lambda>k ps. Body (JObj [(''response'',
      JObj [(''result'', JStr ''success''), (''data'', JObj [])])]))"

definition one_movie :: json where
  "one_movie = JObj [(''response'', JObj [(''data'', JObj [(''recordsFiltered'', JInt 1),
      (''data'', JArr [JObj [(''watched_status'', JInt 1), (''title'', JStr ''Clean Title''),
         (''year'', JInt 1999), (''rating_key'', JInt 42), (''date'', JInt 1700000000)]])])])]"

text \<open>A server that answers the two history requests with one watched movie and then cannot
  be reached, and one that goes on to answer the rating lookup.\<close>

definition offline_env :: env where
  "offline_env = example_env (\<lambda>k ps. if k < 2 then Body one_movie
      else Raises (ConnectionError ''Max retries exceeded''))"

definition rated_env :: env where
  "rated_env = example_env (\<lambda>k ps. if k < 2 then Body one_movie
      else Body (JObj [(''response'', JObj [(''data'', JObj [(''user_rating'', JInt 8)])])]))"

text \<open>No request of the trace was answered with a connection error; \<open>k\<close> is the number of
  requests sent before the trace starts.\<close>

fun is_conn_error :: "reply \<Rightarrow> bool" where
  "is_conn_error (Raises (ConnectionError e)) = True"
| "is_conn_error r = False"

fun calm :: "env \<Rightarrow> nat \<Rightarrow> trace \<Rightarrow> bool" where
  "calm env k [] = True"
| "calm env k (Request url ps # tr) = (\<not> is_conn_error (server env k ps) \<and> calm env (Suc k) tr)"
| "calm env k (ev # tr) = calm env k tr"

text \<open>What holds of a result and the trace so far, as long as the script runs: either no
  request met a connection error, or the last event is the first request that did and the
  result is the exit with that error's text and the hint.\<close>

definition conn_post :: "env \<Rightarrow> exc + 'a \<Rightarrow> trace \<Rightarrow> bool" where
  "conn_post env res tr =
     (calm env 0 tr \<or>
      (\<exists>tr0 url ps e. tr = tr0 @ [Request url ps] \<and> calm env 0 tr0
          \<and> server env (ncalls tr0) ps = Raises (ConnectionError e)
          \<and> res = Inl (SystemExit (e @ [NL] @ ''Base URL invalid, please try again''))))"

text \<open>
  The records of a full-history response, a field of a record (\<open>None\<close> where the record
  has no such field), and whether a record counts as watched: \<open>watched_status == 1\<close>.
\<close>

definition records :: "json \<Rightarrow> json list" where
  "records json_data =
     (case at_path json_data [''response'', ''data'', ''data''] of
        Some (JArr rs) \<Rightarrow> rs
      | _ \<Rightarrow> [])"

definition fld :: "json \<Rightarrow> string \<Rightarrow> json" where
  "fld r key = (case at_path r [key] of Some v \<Rightarrow> v | None \<Rightarrow> JNull)"

definition watched :: "json \<Rightarrow> bool" where
  "watched r = eq_one (fld r ''watched_status'')"

text \<open>
  The row a record renders to, when the lookup of its rating is request number \<open>k\<close> of the
  run: title, year, rating and watched date, joined by commas. (Where the lookup or the
  date fails there is no row; the defaults below are never used by a run that succeeds.)
\<close>

definition rating_for :: "env \<Rightarrow> nat \<Rightarrow> json \<Rightarrow> json" where
  "rating_for env k r =
     (case server env k (rating_params env (py_str (fld r ''rating_key''))) of
        Body j \<Rightarrow> (case rating_of j of Inr v \<Rightarrow> v | Inl e \<Rightarrow> JNull)
      | Raises x \<Rightarrow> JNull)"

definition date_of :: "env \<Rightarrow> json \<Rightarrow> string" where
  "date_of env r =
     (case py_int (Inr (fld r ''date'')) of
        Inr t \<Rightarrow> (case localdate env t of Inr d \<Rightarrow> d | Inl e \<Rightarrow> [])
      | Inl e \<Rightarrow> [])"

definition export_row :: "env \<Rightarrow> nat \<Rightarrow> json \<Rightarrow> string" where
  "export_row env k r =
     render_title (py_str (fld r ''title'')) @ '','' @ py_str (fld r ''year'') @ '',''
       @ py_str (rating_for env k r) @ '','' @ date_of env r"

text \<open>The candidate rows of a list of records: one for each watched record, in the order of
  the feed, the lookups being requests \<open>k\<close>, \<open>k + 1\<close>, ... of the run.\<close>

definition candidates :: "env \<Rightarrow> nat \<Rightarrow> json list \<Rightarrow> string list" where
  "candidates env k rs = map (\<lambda>(i, r). export_row env i r) (enumerate k (filter watched rs))"

text \<open>The request that looks up the rating of a record.\<close>

definition lookup_request :: "env \<Rightarrow> json \<Rightarrow> event" where
  "lookup_request env r = Request (BASE_URL env) (rating_params env (py_str (fld r ''rating_key'')))"

text \<open>Deduplication in first-seen order: every element once, at the place of its first
  occurrence.\<close>

fun first_seen :: "'a list \<Rightarrow> 'a list" where
  "first_seen [] = []"
| "first_seen (x # xs) = x # filter (\<lambda>y. y \<noteq> x) (first_seen xs)"

text \<open>The lines of a text as a reader with universal newlines sees them: a line ends at
  \<open>\r\n\<close>, \<open>\n\<close> or \<open>\r\<close>, and a terminator at the very end opens no further line. The
  first argument holds the characters of the current line, last one first.\<close>

fun lines_from :: "string \<Rightarrow> string \<Rightarrow> string list" where
  "lines_from cur [] = (if cur = [] then [] else [rev cur])"
| "lines_from cur (c # cs) =
     (if c = NL then rev cur # lines_from [] cs
      else if c = CR then
        (case cs of
           [] \<Rightarrow> [rev cur]
         | d # ds \<Rightarrow> if d = NL then rev cur # lines_from [] ds else rev cur # lines_from [] cs)
      else lines_from (c # cur) cs)"

definition splitlines :: "string \<Rightarrow> string list" where
  "splitlines s = lines_from [] s"

text \<open>A history of one movie that was not watched to the end.\<close>

definition unwatched_env :: env where
  "unwatched_env = example_env (\<lambda>k ps. Body (JObj [(''response'', JObj [(''data'',
      JObj [(''recordsFiltered'', JInt 1),
            (''data'', JArr [JObj [(''watched_status'', JInt 0), (''title'', JStr ''Clean Title''),
               (''year'', JInt 1999), (''rating_key'', JInt 42), (''date'', JInt 1700000000)]])])])]))"

text \<open>A history of three entries: a watched movie, a movie that was not watched, and the
  first movie again, watched at the same date. Every lookup finds the rating 8.\<close>

definition three_entries :: json where
  "three_entries = JObj [(''response'', JObj [(''data'', JObj [(''recordsFiltered'', JInt 3),
      (''data'', JArr [
         JObj [(''watched_status'', JInt 1), (''title'', JStr ''Movie, The Sequel''),
               (''year'', JInt 1999), (''rating_key'', JInt 42), (''date'', JInt 1700000000)],
         JObj [(''watched_status'', JInt 0), (''title'', JStr ''Clean Title''),
               (''year'', JInt 2001), (''rating_key'', JInt 43), (''date'', JInt 1700000000)],
         JObj [(''watched_status'', JInt 1), (''title'', JStr ''Movie, The Sequel''),
               (''year'', JInt 1999), (''rating_key'', JInt 42), (''date'', JInt 1700000000)]])])])]"

definition three_env :: env where
  "three_env = example_env (\<lambda>k ps. if k < 2 then Body three_entries
      else Body (JObj [(''response'', JObj [(''data'', JObj [(''user_rating'', JInt 8)])])]))"

text \<open>A server that reports one record and sends two: one not watched, then a watched
  one.\<close>

definition short_history :: json where
  "short_history = JObj [(''response'', JObj [(''data'', JObj [(''recordsFiltered'', JInt 1),
      (''data'', JArr [
         JObj [(''watched_status'', JInt 0), (''title'', JStr ''Clean Title''),
               (''year'', JInt 2001), (''rating_key'', JInt 43), (''date'', JInt 1700000000)],
         JObj [(''watched_status'', JInt 1), (''title'', JStr ''Movie, The Sequel''),
               (''year'', JInt 1999), (''rating_key'', JInt 42), (''date'', JInt 1700000000)]])])])]"

definition short_env :: env where
  "short_env = example_env (\<lambda>k ps. if k < 2 then Body short_history
      else Body (JObj [(''response'', JObj [(''data'', JObj [(''user_rating'', JInt 8)])])]))"

section \<open>Strings: splitting, stripping, joining\<close>

lemma split_nonempty: "split c s \<noteq> []"
  by (induction s) (auto split: list.splits)

lemma set_split: "(\<exists>seg \<in> set (split c s). x \<in> set seg) \<longleftrightarrow> (x \<in> set s \<and> x \<noteq> c)"
proof (induction s)
  case Nil
  then show ?case by simp
next
  case (Cons a s)
  then show ?case using split_nonempty [of c s]
    by (cases "split c s") auto
qed

lemma in_set_dropWhile: "\<not> P x \<Longrightarrow> x \<in> set (dropWhile P xs) \<longleftrightarrow> x \<in> set xs"
  by (induction xs) auto

lemma in_set_strip: "\<not> py_isspace x \<Longrightarrow> x \<in> set (strip s) \<longleftrightarrow> x \<in> set s"
  by (simp add: strip_def in_set_dropWhile)

lemma in_set_join: "x \<notin> set sep \<Longrightarrow> x \<in> set (join sep xs) \<longleftrightarrow> (\<exists>s \<in> set xs. x \<in> set s)"
  by (induction sep xs rule: join.induct) auto

lemma comma_not_space: "\<not> py_isspace (CHR '','')"
  by (simp add: py_isspace_def)

text \<open>Normalization neither adds nor removes a comma, so testing the raw title for one, as
  the source does, is testing the normalized title.\<close>

lemma comma_normalize_title: "CHR '','' \<in> set (normalize_title name) \<longleftrightarrow> CHR '','' \<in> set name"
proof -
  have "CHR '','' \<in> set (normalize_title name) \<longleftrightarrow>
        (\<exists>seg \<in> set (split NL name). CHR '','' \<in> set seg)"
    unfolding normalize_title_def
    by (subst in_set_join) (auto simp: in_set_strip comma_not_space)
  also have "\<dots> \<longleftrightarrow> CHR '','' \<in> set name"
    by (subst set_split) (simp add: NL_def)
  finally show ?thesis .
qed

text \<open>The same holds of the normalization in the words of the specification.\<close>

lemma strip_comma_nonempty: "CHR '','' \<in> set seg \<Longrightarrow> strip seg \<noteq> []"
  using in_set_strip [OF comma_not_space, of seg] by auto

lemma comma_spec_normalize: "CHR '','' \<in> set (spec_normalize name) \<longleftrightarrow> CHR '','' \<in> set name"
proof -
  have "CHR '','' \<in> set (spec_normalize name) \<longleftrightarrow>
        (\<exists>seg \<in> set (split NL name). CHR '','' \<in> set seg)"
    unfolding spec_normalize_def
    by (subst in_set_join) (use strip_comma_nonempty in \<open>auto simp: in_set_strip comma_not_space\<close>)
  also have "\<dots> \<longleftrightarrow> CHR '','' \<in> set name"
    by (subst set_split) (simp add: NL_def)
  finally show ?thesis .
qed

lemma filter_map_strip:
  "\<forall>seg \<in> set xs. seg \<noteq> [] \<longrightarrow> strip seg \<noteq> [] \<Longrightarrow>
   filter (\<lambda>a. a \<noteq> []) (map strip xs) = map strip (filter (\<lambda>a. a \<noteq> []) xs)"
  by (induction xs) (auto simp: strip_def)

text \<open>The source drops the empty segments before it strips, the specification after. The
  two agree unless a segment is made of whitespace only.\<close>

lemma normalize_title_spec:
  "\<forall>seg \<in> set (split NL name). seg \<noteq> [] \<longrightarrow> strip seg \<noteq> [] \<Longrightarrow> normalize_title name = spec_normalize name"
  by (simp add: normalize_title_def spec_normalize_def filter_map_strip)

section \<open>The title of a row\<close>

text \<open>
  C2, as the specification states it: every title is normalized, so the title
  \<open>Line One\n  Line Two  \n\<close> is rendered as \<open>Line One Line Two\<close>. The source normalizes
  only inside the branch taken for a title with a comma: this title has none and is
  rendered as it came. Where the source does normalize, a segment of whitespace only
  survives as an empty segment between two separators.
\<close>

theorem title_normalization_counterexample:
  "render_title (''Line One'' @ [NL] @ ''  Line Two  '' @ [NL]) \<noteq> ''Line One Line Two''
   \<and> spec_normalize (''Line One'' @ [NL] @ ''  Line Two  '' @ [NL]) = ''Line One Line Two''
   \<and> render_title (''A,'' @ [NL] @ ''  '' @ [NL] @ ''B'')
       \<noteq> [DQ] @ spec_normalize (''A,'' @ [NL] @ ''  '' @ [NL] @ ''B'') @ [DQ]"
  by (simp add: render_title_def normalize_title_def spec_normalize_def strip_def py_isspace_def NL_def DQ_def)

text \<open>
  C2, amended: a title that contains a comma, and no segment of whitespace only, is
  rendered as its normalization (split on newlines, segments stripped, empty segments
  dropped, rejoined with single spaces) between two double quotes; a title without a
  comma is rendered unchanged, newlines included. So \<open>Line One\n  Line Two  \n\<close> stays
  as it is, and \<open>Line, One\n  Line Two  \n\<close> becomes \<open>"Line, One Line Two"\<close>.
\<close>

theorem title_normalization:
  "(CHR '','' \<in> set name \<and> (\<forall>seg \<in> set (split NL name). seg \<noteq> [] \<longrightarrow> strip seg \<noteq> [])
      \<longrightarrow> render_title name = [DQ] @ spec_normalize name @ [DQ])
   \<and> (CHR '','' \<notin> set name \<longrightarrow> render_title name = name)
   \<and> render_title (''Line One'' @ [NL] @ ''  Line Two  '' @ [NL]) = ''Line One'' @ [NL] @ ''  Line Two  '' @ [NL]
   \<and> render_title (''Line, One'' @ [NL] @ ''  Line Two  '' @ [NL]) = [DQ] @ ''Line, One Line Two'' @ [DQ]"
proof -
  have a: "render_title (''Line One'' @ [NL] @ ''  Line Two  '' @ [NL]) = ''Line One'' @ [NL] @ ''  Line Two  '' @ [NL]"
    by (simp add: render_title_def NL_def)
  have b: "render_title (''Line, One'' @ [NL] @ ''  Line Two  '' @ [NL]) = [DQ] @ ''Line, One Line Two'' @ [DQ]"
    by (simp add: render_title_def normalize_title_def strip_def py_isspace_def NL_def)
  show ?thesis using a b normalize_title_spec [of name] by (simp add: render_title_def)
qed

theorem title_normalization_witness:
  "CHR '','' \<in> set ''A, B'' \<and> split NL ''A, B'' = [''A, B''] \<and> strip ''A, B'' = ''A, B''
   \<and> render_title ''A, B'' = [DQ] @ spec_normalize ''A, B'' @ [DQ]
   \<and> CHR '','' \<notin> set ''AB'' \<and> render_title ''AB'' = ''AB''"
  using title_normalization [of "''A, B''"] title_normalization [of "''AB''"]
  by (simp add: strip_def py_isspace_def NL_def)

text \<open>
  C3, as the specification states it: whenever the normalized title contains a comma,
  the rendered title is the normalized title between two double quotes. The title
  \<open>A,\n  \nB\<close> has a segment of whitespace only. Its normalization is \<open>A, B\<close>; the
  source strips that segment after it has kept it, joins the empty text in, and renders
  \<open>"A,  B"\<close>, with two spaces.
\<close>

theorem title_quoting_counterexample:
  "CHR '','' \<in> set (spec_normalize (''A,'' @ [NL] @ ''  '' @ [NL] @ ''B''))
   \<and> spec_normalize (''A,'' @ [NL] @ ''  '' @ [NL] @ ''B'') = ''A, B''
   \<and> render_title (''A,'' @ [NL] @ ''  '' @ [NL] @ ''B'') = [DQ] @ ''A,  B'' @ [DQ]
   \<and> render_title (''A,'' @ [NL] @ ''  '' @ [NL] @ ''B'')
       \<noteq> [DQ] @ spec_normalize (''A,'' @ [NL] @ ''  '' @ [NL] @ ''B'') @ [DQ]"
  by (simp add: render_title_def normalize_title_def spec_normalize_def strip_def py_isspace_def NL_def DQ_def)

text \<open>
  C3, amended: if the normalized title contains a comma, and the title has no segment of
  whitespace only, the rendered title is the normalized title between two double quotes;
  if the normalized title contains no comma, the title is rendered as it came, with no
  quote added. So \<open>Movie, The Sequel\<close> renders as \<open>"Movie, The Sequel"\<close> and
  \<open>Clean Title\<close> as \<open>Clean Title\<close>.
\<close>

theorem title_quoting:
  "(CHR '','' \<in> set (spec_normalize name) \<and> (\<forall>seg \<in> set (split NL name). seg \<noteq> [] \<longrightarrow> strip seg \<noteq> [])
      \<longrightarrow> render_title name = [DQ] @ spec_normalize name @ [DQ])
   \<and> (CHR '','' \<notin> set (spec_normalize name) \<longrightarrow> render_title name = name)
   \<and> render_title ''Movie, The Sequel'' = [DQ] @ ''Movie, The Sequel'' @ [DQ]
   \<and> render_title ''Clean Title'' = ''Clean Title''"
proof -
  have a: "render_title ''Movie, The Sequel'' = [DQ] @ ''Movie, The Sequel'' @ [DQ]"
    by (simp add: render_title_def normalize_title_def strip_def py_isspace_def NL_def)
  have b: "render_title ''Clean Title'' = ''Clean Title''"
    by (simp add: render_title_def)
  show ?thesis
    using a b normalize_title_spec [of name]
    by (simp add: comma_spec_normalize render_title_def)
qed

theorem title_quoting_witness:
  "CHR '','' \<in> set (spec_normalize (''Line, One'' @ [NL] @ ''  Line Two  ''))
   \<and> split NL (''Line, One'' @ [NL] @ ''  Line Two  '') = [''Line, One'', ''  Line Two  '']
   \<and> strip ''Line, One'' = ''Line, One'' \<and> strip ''  Line Two  '' = ''Line Two''
   \<and> render_title (''Line, One'' @ [NL] @ ''  Line Two  '')
        = [DQ] @ spec_normalize (''Line, One'' @ [NL] @ ''  Line Two  '') @ [DQ]
   \<and> spec_normalize (''Line, One'' @ [NL] @ ''  Line Two  '') = ''Line, One Line Two''
   \<and> CHR '','' \<notin> set (spec_normalize ''Clean Title'') \<and> render_title ''Clean Title'' = ''Clean Title''"
proof -
  let ?t = "''Line, One'' @ [NL] @ ''  Line Two  ''"
  have s: "split NL ?t = [''Line, One'', ''  Line Two  '']"
    by (simp add: NL_def)
  have p1: "strip ''Line, One'' = ''Line, One''"
    by (simp add: strip_def py_isspace_def)
  have p2: "strip ''  Line Two  '' = ''Line Two''"
    by (simp add: strip_def py_isspace_def)
  have n: "spec_normalize ?t = ''Line, One Line Two''"
    by code_simp
  have h1: "CHR '','' \<in> set (spec_normalize ?t)"
    by (simp only: n) simp
  have h2: "\<forall>seg \<in> set (split NL ?t). seg \<noteq> [] \<longrightarrow> strip seg \<noteq> []"
    by (simp only: s) (simp add: p1 p2)
  have h3: "CHR '','' \<notin> set (spec_normalize ''Clean Title'')"
    by (simp add: comma_spec_normalize)
  from title_quoting [of ?t] h1 h2 have r: "render_title ?t = [DQ] @ spec_normalize ?t @ [DQ]"
    by blast
  from title_quoting [of "''Clean Title''"] h3 have c: "render_title ''Clean Title'' = ''Clean Title''"
    by blast
  show ?thesis by (intro conjI; fact)
qed

section \<open>Requests and lookups\<close>

lemma ncalls_append [simp]: "ncalls (tr @ tr2) = ncalls tr + ncalls tr2"
  by (simp add: ncalls_def)

lemma ncalls_simps [simp]:
  "ncalls [] = 0"
  "ncalls (Request url ps # tr) = Suc (ncalls tr)"
  "ncalls (Print s # tr) = ncalls tr"
  "ncalls (SpinnerStart s # tr) = ncalls tr"
  "ncalls (SpinnerStop # tr) = ncalls tr"
  "ncalls (FileOpen s # tr) = ncalls tr"
  "ncalls (FileWrite s # tr) = ncalls tr"
  "ncalls (FileClose # tr) = ncalls tr"
  by (simp_all add: ncalls_def)

text \<open>Every call of \<open>api_handler\<close> sends exactly one request, whatever the reply.\<close>

lemma api_handler_eq:
  "api_handler env ps tr =
     (case server env (ncalls tr) (dict_set ps ''apikey'' (PStr (TOKEN env))) of
        Raises x \<Rightarrow> Inl (api_except x) | Body j \<Rightarrow> Inr j,
      tr @ [Request (BASE_URL env) (dict_set ps ''apikey'' (PStr (TOKEN env)))])"
  by (simp add: api_handler_def Let_def split: reply.splits)

lemma get_length_eq:
  "get_length env tr =
     (case server env (ncalls tr) (count_params env) of
        Raises x \<Rightarrow> Inl (api_except x) | Body j \<Rightarrow> length_of j,
      tr @ [Request (BASE_URL env) (count_params env)])"
  by (simp add: get_length_def api_handler_eq count_params_def split: reply.splits)

lemma rating_handler_eq:
  "rating_handler env key tr =
     (case server env (ncalls tr) (rating_params env key) of
        Raises x \<Rightarrow> Inl (api_except x) | Body j \<Rightarrow> rating_of j,
      tr @ [Request (BASE_URL env) (rating_params env key)])"
  by (simp add: rating_handler_def api_handler_eq rating_params_def split: reply.splits)

lemma foldl_getitem_Inl [simp]: "foldl getitem (Inl e) ks = Inl e"
  by (induction ks) auto

text \<open>A chain of subscripts finds what \<open>at_path\<close> finds; where \<open>at_path\<close> finds nothing it
  raises \<open>KeyError\<close> at an object without the key and \<open>TypeError\<close> at a value that cannot be
  subscripted with a string.\<close>

lemma at_path_Some: "at_path v ks = Some w \<Longrightarrow> foldl getitem (Inr v) ks = Inr w"
  by (induction v ks rule: at_path.induct) (auto split: option.splits)

lemma at_path_None:
  "at_path v ks = None \<Longrightarrow>
     (missing_key v ks \<longrightarrow> (\<exists>k. foldl getitem (Inr v) ks = Inl (KeyError k))) \<and>
     (\<not> missing_key v ks \<longrightarrow> (\<exists>m. foldl getitem (Inr v) ks = Inl (TypeError m)))"
  by (induction v ks rule: at_path.induct) (auto split: option.splits simp: not_subscriptable_def)

lemma length_of_object:
  "kvs \<noteq> [] \<Longrightarrow> length_of (JObj kvs) =
     (case py_int (foldl getitem (Inr (JObj kvs)) [''response'', ''data'', ''recordsFiltered'']) of
        Inl e \<Rightarrow> Inl (length_except e) | Inr i \<Rightarrow> Inr (Some i))"
  by (cases kvs) (simp_all add: length_of_def)

section \<open>The count phase\<close>

text \<open>
  C5, as the specification states it: whenever the count response is a non-empty object
  without \<open>recordsFiltered\<close> at \<open>response.data\<close>, the program ends with the message
  \<open>API key invalid\<close>. The handler in \<open>get_length\<close> catches \<open>KeyError\<close> only. When the path
  breaks at a value that is not an object (here \<open>response\<close> is an array) the subscript
  raises \<open>TypeError\<close>, which \<open>to_csv\<close> catches: the message is \<open>Invalid user\<close>.
\<close>

theorem missing_count_field_counterexample:
  "server no_object_env 0 (count_params no_object_env) = Body (JObj [(''response'', JArr [])])
   \<and> at_path (JObj [(''response'', JArr [])]) [''response'', ''data'', ''recordsFiltered''] = None
   \<and> fst (main no_object_env) =
       Inl (SystemExit (''list indices must be integers or slices, not str'' @ [NL]
              @ ''Invalid user, please check your configuration and try again''))
   \<and> fst (main no_object_env) \<noteq> Inl (SystemExit ''API key invalid, please try again'')"
  by (simp add: no_object_env_def example_env_def main_def to_csv_def json_parser_def get_length_eq
      length_of_def count_params_def NL_def)

text \<open>
  C5, amended: if the count response is a non-empty object without \<open>recordsFiltered\<close> at
  \<open>response.data\<close>, the count request is the only request of the run, so the full history
  is never fetched. The program ends with \<open>API key invalid\<close> when the path breaks at an
  object that lacks the next key, and with the text of a \<open>TypeError\<close> followed by
  \<open>Invalid user\<close> when it breaks at a value that is not an object.
\<close>

theorem missing_count_field:
  assumes "server env 0 (count_params env) = Body (JObj kvs)" and "kvs \<noteq> []"
    and "at_path (JObj kvs) [''response'', ''data'', ''recordsFiltered''] = None"
  shows "snd (main env) = [Request (BASE_URL env) (count_params env)]
     \<and> (missing_key (JObj kvs) [''response'', ''data'', ''recordsFiltered'']
          \<longrightarrow> fst (main env) = Inl (SystemExit ''API key invalid, please try again''))
     \<and> (\<not> missing_key (JObj kvs) [''response'', ''data'', ''recordsFiltered'']
          \<longrightarrow> (\<exists>m. fst (main env) =
                  Inl (SystemExit (m @ [NL] @ ''Invalid user, please check your configuration and try again''))))"
proof -
  let ?p = "[''response'', ''data'', ''recordsFiltered'']"
  let ?look = "foldl getitem (Inr (JObj kvs)) ?p"
  have gl: "get_length env [] =
      (case py_int ?look of Inl e \<Rightarrow> Inl (length_except e) | Inr i \<Rightarrow> Inr (Some i),
       [Request (BASE_URL env) (count_params env)])"
    using assms(1,2) by (simp add: get_length_eq length_of_object)
  show ?thesis
  proof (cases "missing_key (JObj kvs) ?p")
    case True
    with at_path_None [OF assms(3)] obtain k where "?look = Inl (KeyError k)" by blast
    with gl have "get_length env [] =
        (Inl (SystemExit ''API key invalid, please try again''), [Request (BASE_URL env) (count_params env)])"
      by simp
    with True show ?thesis by (simp add: main_def to_csv_def json_parser_def)
  next
    case False
    with at_path_None [OF assms(3)] obtain m where "?look = Inl (TypeError m)" by blast
    with gl have "get_length env [] = (Inl (TypeError m), [Request (BASE_URL env) (count_params env)])"
      by simp
    with False show ?thesis by (simp add: main_def to_csv_def json_parser_def)
  qed
qed

theorem missing_count_field_witness:
  "snd (main rejected_env) = [Request (BASE_URL rejected_env) (count_params rejected_env)]
   \<and> fst (main rejected_env) = Inl (SystemExit ''API key invalid, please try again'')
   \<and> snd (main no_object_env) = [Request (BASE_URL no_object_env) (count_params no_object_env)]"
  using missing_count_field [of rejected_env "[(''response'',
      JObj [(''result'', JStr ''error''), (''message'', JStr ''Invalid apikey''), (''data'', JObj [])])]"]
    missing_count_field [of no_object_env "[(''response'', JArr [])]"]
  by (simp add: rejected_env_def no_object_env_def example_env_def count_params_def)

section \<open>The parser, from the start of a run\<close>

text \<open>\<open>json_parser\<close> up to its loop: the count request, the full fetch with the count as
  \<open>length\<close>, the announcement.\<close>

lemma json_parser_eq:
  "json_parser env [] =
     (case server env 0 (count_params env) of
        Raises x \<Rightarrow> (Inl (api_except x), [Request (BASE_URL env) (count_params env)])
      | Body j0 \<Rightarrow>
          (case length_of j0 of
             Inl e \<Rightarrow> (Inl e, [Request (BASE_URL env) (count_params env)])
           | Inr total_count \<Rightarrow>
               (case server env 1 (fetch_params env total_count) of
                  Raises x \<Rightarrow>
                    (Inl (api_except x),
                     [Request (BASE_URL env) (count_params env), Request (BASE_URL env) (fetch_params env total_count)])
                | Body json_data \<Rightarrow>
                    (case (case iterations json_data of
                             Inl e \<Rightarrow> (Inl e, start_trace env total_count)
                           | Inr n \<Rightarrow> for_loop env total_count json_data n [] (start_trace env total_count)) of
                       (Inl e, tr4) \<Rightarrow> (Inl (parser_except e), tr4)
                     | (Inr r, tr4) \<Rightarrow> (Inr r, tr4)))))"
  by (simp add: json_parser_def get_length_eq api_handler_eq fetch_params_def start_trace_def Let_def
      split: prod.splits sum.splits reply.splits)

lemma field_eq:
  "field json_data count key =
     getitem (getindex (foldl getitem (Inr json_data) [''response'', ''data'', ''data'']) count) key"
  by (simp add: field_def)

lemma at_path_iterations:
  assumes "at_path v (k # ks) = Some w"
  shows "\<exists>n. iterations v = Inr (Suc n)"
proof (cases v)
  case (JObj kvs)
  with assms have "kvs \<noteq> []" by auto
  with JObj show ?thesis by (cases kvs) auto
qed (use assms in auto)

lemma file_content_no_file: "\<not> list_ex is_file_event tr \<Longrightarrow> file_content tr = None"
  by (simp add: file_content_def)

section \<open>Runs that never reach the loop's \<open>return\<close>\<close>

text \<open>
  C9: if the server reports a filtered record count of 0 and the fetched record list is
  empty, the run does not end normally. The condition \<open>count <= total_count\<close> holds for
  \<open>count = 0\<close>, reading element 0 of the empty list raises \<open>IndexError\<close>, and the program
  exits with the text of that error followed by the \<open>Index Error\<close> message. Nothing has
  happened but the two history requests and the announcement: no file is written.
\<close>

theorem zero_count_aborts:
  assumes "server env 0 (count_params env) = Body j0"
    and "at_path j0 [''response'', ''data'', ''recordsFiltered''] = Some c"
    and "py_int (Inr c) = Inr 0"
    and "server env 1 (fetch_params env (Some 0)) = Body j1"
    and "at_path j1 [''response'', ''data'', ''data''] = Some (JArr [])"
  shows "main env =
      (Inl (SystemExit (''list index out of range'' @ [NL]
              @ ''Index Error, please check your configuration and try again'')),
       start_trace env (Some 0))
    \<and> field j1 0 ''watched_status'' = Inl (IndexError ''list index out of range'')
    \<and> file_content (snd (main env)) = None"
proof -
  obtain n0 where n0: "iterations j0 = Inr (Suc n0)"
    using at_path_iterations [OF assms(2)] by blast
  have len: "length_of j0 = Inr (Some 0)"
    using n0 at_path_Some [OF assms(2)] assms(3) by (simp add: length_of_def)
  obtain n1 where n1: "iterations j1 = Inr (Suc n1)"
    using at_path_iterations [OF assms(5)] by blast
  have fld: "field j1 0 ''watched_status'' = Inl (IndexError ''list index out of range'')"
    using at_path_Some [OF assms(5)] by (simp add: field_eq)
  have wl: "while_loop env 0 j1 0 [] (start_trace env (Some 0))
            = (Inl (IndexError ''list index out of range''), start_trace env (Some 0))"
    by (subst while_loop.simps) (simp add: visit_def fld)
  have jp: "json_parser env [] =
      (Inl (SystemExit (''list index out of range'' @ [NL]
              @ ''Index Error, please check your configuration and try again'')),
       start_trace env (Some 0))"
    using assms(1,4) len n1 wl by (simp add: json_parser_eq)
  have nf: "\<not> list_ex is_file_event (start_trace env (Some 0))"
    by (simp add: start_trace_def)
  show ?thesis using jp nf fld by (simp add: main_def to_csv_def file_content_no_file)
qed

theorem zero_count_aborts_witness:
  "main empty_history_env =
      (Inl (SystemExit (''list index out of range'' @ [NL]
              @ ''Index Error, please check your configuration and try again'')),
       start_trace empty_history_env (Some 0))
    \<and> field (JObj [(''response'',
          JObj [(''result'', JStr ''success''),
                (''data'', JObj [(''recordsFiltered'', JInt 0), (''recordsTotal'', JInt 0), (''data'', JArr [])])])])
        0 ''watched_status'' = Inl (IndexError ''list index out of range'')
    \<and> file_content (snd (main empty_history_env)) = None"
proof -
  let ?j = "JObj [(''response'',
      JObj [(''result'', JStr ''success''),
            (''data'', JObj [(''recordsFiltered'', JInt 0), (''recordsTotal'', JInt 0), (''data'', JArr [])])])]"
  have h1: "server empty_history_env 0 (count_params empty_history_env) = Body ?j"
    by (simp add: empty_history_env_def example_env_def)
  have h2: "at_path ?j [''response'', ''data'', ''recordsFiltered''] = Some (JInt 0)"
    by simp
  have h3: "py_int (Inr (JInt 0)) = Inr 0"
    by simp
  have h4: "server empty_history_env 1 (fetch_params empty_history_env (Some 0)) = Body ?j"
    by (simp add: empty_history_env_def example_env_def)
  have h5: "at_path ?j [''response'', ''data'', ''data''] = Some (JArr [])"
    by simp
  show ?thesis using zero_count_aborts [OF h1 h2 h3 h4 h5] .
qed

text \<open>
  C10: if the count phase has returned and the full-history response is an object with no
  keys, the body of the \<open>for\<close> loop is never entered and the parser returns \<open>None\<close>; the
  unpacking in \<open>to_csv\<close> raises \<open>TypeError\<close>, the program exits with the text of that error
  followed by the \<open>Invalid user\<close> message, and no file is written.
\<close>

theorem empty_response_aborts:
  assumes "server env 0 (count_params env) = Body j0"
    and "length_of j0 = Inr total_count"
    and "server env 1 (fetch_params env total_count) = Body (JObj [])"
  shows "json_parser env [] = (Inr None, start_trace env total_count)
    \<and> main env =
      (Inl (SystemExit (''cannot unpack non-iterable NoneType object'' @ [NL]
              @ ''Invalid user, please check your configuration and try again'')),
       start_trace env total_count)
    \<and> file_content (snd (main env)) = None"
proof -
  have jp: "json_parser env [] = (Inr None, start_trace env total_count)"
    using assms by (simp add: json_parser_eq)
  have nf: "\<not> list_ex is_file_event (start_trace env total_count)"
    by (simp add: start_trace_def)
  show ?thesis using jp nf by (simp add: main_def to_csv_def file_content_no_file)
qed

theorem empty_response_aborts_witness:
  "json_parser empty_body_env [] = (Inr None, start_trace empty_body_env (Some 3))
    \<and> main empty_body_env =
      (Inl (SystemExit (''cannot unpack non-iterable NoneType object'' @ [NL]
              @ ''Invalid user, please check your configuration and try again'')),
       start_trace empty_body_env (Some 3))
    \<and> file_content (snd (main empty_body_env)) = None"
proof -
  let ?j0 = "JObj [(''response'', JObj [(''data'', JObj [(''recordsFiltered'', JInt 3)])])]"
  have h1: "server empty_body_env 0 (count_params empty_body_env) = Body ?j0"
    by (simp add: empty_body_env_def example_env_def)
  have h2: "length_of ?j0 = Inr (Some 3)"
    by (simp add: length_of_def)
  have h3: "server empty_body_env 1 (fetch_params empty_body_env (Some 3)) = Body (JObj [])"
    by (simp add: empty_body_env_def example_env_def)
  show ?thesis using empty_response_aborts [OF h1 h2 h3] .
qed

section \<open>Ratings\<close>

lemma rating_of_empty:
  assumes "at_path j [''response'', ''data''] = Some d" and "\<not> truthy d"
  shows "rating_of j = Inr JNull"
proof -
  obtain n where "iterations j = Inr (Suc n)"
    using at_path_iterations [OF assms(1)] by blast
  then show ?thesis
    using at_path_Some [OF assms(1)] assms(2) by (simp add: rating_of_def)
qed

text \<open>
  C6: when the metadata lookup for a rating key returns a response whose \<open>data\<close> payload
  is empty (anything Python takes for false: \<open>{}\<close>, \<open>[]\<close>, \<open>''\<close>, \<open>null\<close>), \<open>rating_handler\<close>
  returns \<open>None\<close> and raises nothing; and if the other fields of the record can be read, the
  row built for it has the text \<open>None\<close> in its rating field.
\<close>

theorem empty_payload_no_rating:
  assumes "server env (ncalls tr) (rating_params env (py_str k)) = Body j"
    and "at_path j [''response'', ''data''] = Some d" and "\<not> truthy d"
  shows "rating_handler env (py_str k) tr = (Inr JNull, tr @ [Request (BASE_URL env) (rating_params env (py_str k))])
    \<and> (field json_data count ''title'' = Inr n \<and> field json_data count ''year'' = Inr y
        \<and> field json_data count ''rating_key'' = Inr k
        \<and> py_int (field json_data count ''date'') = Inr t \<and> localdate env t = Inr wd
        \<longrightarrow> (\<exists>movies'. fst (add_movie env json_data count movies tr) = Inr movies'
              \<and> render_title (py_str n) @ '','' @ py_str y @ '','' @ ''None'' @ '','' @ wd \<in> set movies'))"
proof -
  have rh: "rating_handler env (py_str k) tr
            = (Inr JNull, tr @ [Request (BASE_URL env) (rating_params env (py_str k))])"
    using assms(1) rating_of_empty [OF assms(2,3)] by (simp add: rating_handler_eq)
  show ?thesis using rh by (auto simp: add_movie_def offer_def Let_def)
qed

theorem empty_payload_no_rating_witness:
  "rating_handler unrated_env ''42'' [] = (Inr JNull, [Request (BASE_URL unrated_env) (rating_params unrated_env ''42'')])
   \<and> fst (add_movie unrated_env one_movie 0 [] []) = Inr [''Clean Title,1999,None,2023-11-14'']"
proof -
  let ?j = "JObj [(''response'', JObj [(''result'', JStr ''success''), (''data'', JObj [])])]"
  have k: "py_str (JInt 42) = ''42''"
    by code_simp
  have h1: "server unrated_env (ncalls []) (rating_params unrated_env (py_str (JInt 42))) = Body ?j"
    by (simp add: unrated_env_def example_env_def)
  have h2: "at_path ?j [''response'', ''data''] = Some (JObj [])"
    by simp
  have h3: "\<not> truthy (JObj [])"
    by simp
  have f: "field one_movie 0 ''title'' = Inr (JStr ''Clean Title'')"
      "field one_movie 0 ''year'' = Inr (JInt 1999)"
      "field one_movie 0 ''rating_key'' = Inr (JInt 42)"
      "py_int (field one_movie 0 ''date'') = Inr 1700000000"
      "localdate unrated_env 1700000000 = Inr ''2023-11-14''"
    by (simp_all add: one_movie_def field_def unrated_env_def example_env_def)
  have y: "py_str (JInt 1999) = ''1999''"
    by code_simp
  have t: "render_title (py_str (JStr ''Clean Title'')) = ''Clean Title''"
    by (simp add: render_title_def)
  from empty_payload_no_rating [OF h1 h2 h3, of one_movie 0 "JStr ''Clean Title''" "JInt 1999" 1700000000 "''2023-11-14''" "[]"] f
  have "rating_handler unrated_env (py_str (JInt 42)) [] =
          (Inr JNull, [Request (BASE_URL unrated_env) (rating_params unrated_env (py_str (JInt 42)))])"
    and "\<exists>movies'. fst (add_movie unrated_env one_movie 0 [] []) = Inr movies'
          \<and> render_title (py_str (JStr ''Clean Title'')) @ '','' @ py_str (JInt 1999) @ '','' @ ''None'' @ '','' @ ''2023-11-14''
               \<in> set movies'"
    by simp_all
  moreover have "fst (add_movie unrated_env one_movie 0 [] []) = Inr [''Clean Title,1999,None,2023-11-14'']"
    using f h1 rating_of_empty [OF h2 h3] k y t
    by (simp add: add_movie_def offer_def rating_handler_eq Let_def del: py_str.simps) simp
  ultimately show ?thesis using k by simp
qed

section \<open>The output file\<close>

text \<open>Nothing below \<open>to_csv\<close> touches the file: the loop adds requests and spinner events
  only.\<close>

lemma add_movie_file [simp]:
  "list_ex is_file_event (snd (add_movie env j c m tr)) = list_ex is_file_event tr"
  by (simp add: add_movie_def rating_handler_eq Let_def split: sum.splits prod.splits reply.splits)

lemma visit_file [simp]:
  "list_ex is_file_event (snd (visit env j c m tr)) = list_ex is_file_event tr"
  by (simp add: visit_def split: sum.splits)

lemma while_loop_file [simp]:
  "list_ex is_file_event (snd (while_loop env tc j c m tr)) = list_ex is_file_event tr"
proof (induction env tc j c m tr rule: while_loop.induct)
  case (1 env tc j c m tr)
  show ?case
  proof (cases "visit env j c m tr")
    case (Pair r tr1)
    then have v: "list_ex is_file_event tr1 = list_ex is_file_event tr"
      using visit_file [of env j c m tr] by simp
    show ?thesis
      using 1 Pair v by (subst while_loop.simps) (auto split: sum.splits)
  qed
qed

lemma for_loop_file [simp]:
  "list_ex is_file_event (snd (for_loop env tc j n m tr)) = list_ex is_file_event tr"
proof (induction n arbitrary: m tr)
  case 0
  then show ?case by simp
next
  case (Suc n)
  show ?case
  proof (cases tc)
    case None
    then show ?thesis by simp
  next
    case (Some t)
    show ?thesis
    proof (cases "while_loop env t j 0 m tr")
      case (Pair r tr1)
      then have "list_ex is_file_event tr1 = list_ex is_file_event tr"
        using while_loop_file [of env t j 0 m tr] by simp
      with Suc Some Pair show ?thesis by (auto split: sum.splits loop_end.splits)
    qed
  qed
qed

lemma snd_case_sum_pair [simp]:
  "snd (case p of (Inl e, t) \<Rightarrow> (f e, t) | (Inr r, t) \<Rightarrow> (g r, t)) = snd p"
  by (auto split: prod.splits sum.splits)

lemma json_parser_no_file: "\<not> list_ex is_file_event (snd (json_parser env []))"
  by (simp add: json_parser_eq start_trace_def split: reply.splits sum.splits)

lemma to_csv_trace:
  "\<exists>rest. snd (to_csv env tr) = snd (json_parser env tr) @ rest \<and> \<not> list_ex is_request rest
      \<and> ((\<forall>r. fst (json_parser env tr) \<noteq> Inr (Some r)) \<longrightarrow> rest = [])"
  by (auto simp: to_csv_def Let_def split: prod.splits sum.splits option.splits)

text \<open>
  C8: the file is opened only after \<open>json_parser\<close> has returned a list. Whenever it raises
  or returns \<open>None\<close> (a failure while counting, fetching, looking up a rating or reading a
  record) the file is neither created nor modified; the parser itself never touches the
  file; and the trace of a run is the whole trace of the parser followed by events among
  which there is no request, so every request precedes the opening of the file.
\<close>

theorem file_only_after_parse:
  "((\<forall>r. fst (json_parser env []) \<noteq> Inr (Some r)) \<longrightarrow> file_content (snd (main env)) = None)
   \<and> \<not> list_ex is_file_event (snd (json_parser env []))
   \<and> (\<exists>rest. snd (main env) = snd (json_parser env []) @ rest \<and> \<not> list_ex is_request rest)"
  using to_csv_trace [of env "[]"] json_parser_no_file [of env]
  by (auto simp: main_def file_content_def)

theorem file_only_after_parse_witness:
  "fst (json_parser offline_env []) =
     Inl (SystemExit (''Max retries exceeded'' @ [NL] @ ''Base URL invalid, please try again''))
   \<and> file_content (snd (main offline_env)) = None
   \<and> \<not> list_ex is_file_event (snd (json_parser offline_env []))"
proof -
  have a: "fst (json_parser offline_env []) =
     Inl (SystemExit (''Max retries exceeded'' @ [NL] @ ''Base URL invalid, please try again''))"
    by code_simp
  then have "\<forall>r. fst (json_parser offline_env []) \<noteq> Inr (Some r)"
    by simp
  with file_only_after_parse [of offline_env] a show ?thesis
    by blast
qed

section \<open>Connection errors\<close>

lemma calm_append: "calm env k (tr @ tr2) = (calm env k tr \<and> calm env (k + ncalls tr) tr2)"
  by (induction env k tr rule: calm.induct) auto

lemma calm_request:
  "calm env 0 (tr @ [Request url ps]) = (calm env 0 tr \<and> \<not> is_conn_error (server env (ncalls tr) ps))"
  by (auto simp: calm_append)

lemma conn_post_calm: "calm env 0 tr \<Longrightarrow> conn_post env res tr"
  by (simp add: conn_post_def)

lemma conn_post_Inr: "conn_post env (Inr v) tr \<Longrightarrow> calm env 0 tr"
  by (auto simp: conn_post_def)

lemma is_conn_error_iff: "is_conn_error r \<longleftrightarrow> (\<exists>e. r = Raises (ConnectionError e))"
  by (cases r rule: is_conn_error.cases) auto

text \<open>A request keeps the invariant whatever its reply, and so does every function that
  passes an exit on unchanged.\<close>

lemma conn_post_request:
  assumes "calm env 0 tr"
  shows "conn_post env (case server env (ncalls tr) ps of Raises x \<Rightarrow> Inl (api_except x) | Body j \<Rightarrow> f j)
           (tr @ [Request url ps])"
proof (cases "is_conn_error (server env (ncalls tr) ps)")
  case True
  then obtain e where "server env (ncalls tr) ps = Raises (ConnectionError e)"
    by (auto simp: is_conn_error_iff)
  with assms show ?thesis by (auto simp: conn_post_def)
next
  case False
  with assms show ?thesis by (simp add: conn_post_def calm_request)
qed

lemma get_length_conn:
  "calm env 0 tr \<Longrightarrow> conn_post env (fst (get_length env tr)) (snd (get_length env tr))"
  by (simp add: get_length_eq conn_post_request)

lemma rating_handler_conn:
  "calm env 0 tr \<Longrightarrow> conn_post env (fst (rating_handler env key tr)) (snd (rating_handler env key tr))"
  by (simp add: rating_handler_eq conn_post_request)

lemma conn_post_Inl:
  "conn_post env (Inl e :: exc + 'a) tr \<Longrightarrow> conn_post env (Inl e :: exc + 'b) tr"
  by (auto simp: conn_post_def)

lemma add_movie_conn:
  assumes "calm env 0 tr"
  shows "conn_post env (fst (add_movie env j c m tr)) (snd (add_movie env j c m tr))"
proof -
  have rh: "conn_post env (fst (rating_handler env key tr)) (snd (rating_handler env key tr))" for key
    using assms by (rule rating_handler_conn)
  have ok: "rating_handler env key tr = (Inr r, tr1) \<Longrightarrow> calm env 0 tr1" for key r tr1
    using rh [of key] by (auto dest: conn_post_Inr)
  have bad: "rating_handler env key tr = (Inl e, tr1) \<Longrightarrow> conn_post env (Inl e :: exc + string list) tr1" for key e tr1
    using rh [of key] by (auto dest: conn_post_Inl)
  show ?thesis
    using assms ok bad
    by (auto simp: add_movie_def Let_def calm_append conn_post_calm split: sum.splits prod.splits)
qed

lemma visit_conn:
  "calm env 0 tr \<Longrightarrow> conn_post env (fst (visit env j c m tr)) (snd (visit env j c m tr))"
  by (auto simp: visit_def add_movie_conn conn_post_calm split: sum.splits)

lemma while_loop_conn:
  "calm env 0 tr \<Longrightarrow> conn_post env (fst (while_loop env tc j c m tr)) (snd (while_loop env tc j c m tr))"
proof (induction env tc j c m tr rule: while_loop.induct)
  case (1 env tc j c m tr)
  show ?case
  proof (cases "visit env j c m tr")
    case (Pair r tr1)
    have v: "conn_post env r tr1"
      using visit_conn [OF "1.prems", of j c m] Pair by simp
    show ?thesis
    proof (cases r)
      case (Inl e)
      with v Pair show ?thesis
        by (subst (1 2) while_loop.simps) (auto simp: conn_post_calm "1.prems" dest: conn_post_Inl)
    next
      case (Inr m1)
      with v have c1: "calm env 0 tr1" by (auto dest: conn_post_Inr)
      with Inr Pair "1.IH" show ?thesis
        by (subst (1 2) while_loop.simps) (auto simp: conn_post_calm calm_append "1.prems")
    qed
  qed
qed

lemma for_loop_conn:
  "calm env 0 tr \<Longrightarrow> conn_post env (fst (for_loop env tc j n m tr)) (snd (for_loop env tc j n m tr))"
proof (induction n arbitrary: m tr)
  case 0
  then show ?case by (simp add: conn_post_calm)
next
  case (Suc n)
  show ?case
  proof (cases tc)
    case None
    with Suc.prems show ?thesis by (simp add: conn_post_calm)
  next
    case (Some t)
    show ?thesis
    proof (cases "while_loop env t j 0 m tr")
      case (Pair r tr1)
      have w: "conn_post env r tr1"
        using while_loop_conn [OF Suc.prems, of t j 0 m] Pair by simp
      show ?thesis
      proof (cases r)
        case (Inl e)
        with w Pair Some show ?thesis by (auto dest: conn_post_Inl)
      next
        case (Inr le)
        with w have c1: "calm env 0 tr1" by (auto dest: conn_post_Inr)
        with Inr Pair Some Suc.IH [OF c1] show ?thesis
          by (cases le) (auto simp: conn_post_calm)
      qed
    qed
  qed
qed

lemma conn_post_parser_except:
  "conn_post env (Inl e :: exc + 'a) tr \<Longrightarrow> conn_post env (Inl (parser_except e) :: exc + 'b) tr"
  by (cases e) (auto simp: conn_post_def)

lemma conn_post_csv_except:
  "conn_post env (Inl e :: exc + 'a) tr \<Longrightarrow> conn_post env (Inl (csv_except env' e) :: exc + 'b) tr"
  by (cases e) (auto simp: conn_post_def)

lemma json_parser_conn:
  "conn_post env (fst (json_parser env [])) (snd (json_parser env []))"
proof (cases "server env 0 (count_params env)")
  case (Raises x)
  show ?thesis
    using conn_post_request [where env = env and tr = "[]" and ps = "count_params env" and url = "BASE_URL env"] Raises
    by (simp add: json_parser_eq)
next
  case (Body j0)
  have c0: "calm env 0 [Request (BASE_URL env) (count_params env)]"
    using Body by simp
  show ?thesis
  proof (cases "length_of j0")
    case (Inl e)
    with Body c0 show ?thesis by (simp add: json_parser_eq conn_post_calm)
  next
    case (Inr tc)
    show ?thesis
    proof (cases "server env 1 (fetch_params env tc)")
      case (Raises x)
      show ?thesis
        using conn_post_request [OF c0, where ps = "fetch_params env tc" and url = "BASE_URL env"] Raises Body Inr
        by (simp add: json_parser_eq)
    next
      case B: (Body j1)
      have c1: "calm env 0 (start_trace env tc)"
        using Body B by (simp add: start_trace_def)
      show ?thesis
      proof (cases "iterations j1")
        case (Inl e)
        with Body Inr B c1 show ?thesis
          by (cases e) (simp_all add: json_parser_eq conn_post_calm)
      next
        case I: (Inr n)
        obtain r tr4 where f: "for_loop env tc j1 n [] (start_trace env tc) = (r, tr4)"
          by (cases "for_loop env tc j1 n [] (start_trace env tc)")
        have "conn_post env r tr4"
          using for_loop_conn [OF c1, of tc j1 n "[]"] f by simp
        with Body Inr B I f show ?thesis
          by (cases r) (auto simp: json_parser_eq dest: conn_post_parser_except conn_post_Inr intro: conn_post_calm)
      qed
    qed
  qed
qed

lemma main_conn: "conn_post env (fst (main env)) (snd (main env))"
proof -
  obtain r tr1 where jp: "json_parser env [] = (r, tr1)"
    by (cases "json_parser env []")
  have p: "conn_post env r tr1"
    using json_parser_conn [of env] jp by simp
  show ?thesis
  proof (cases r)
    case (Inl e)
    with p jp show ?thesis
      by (auto simp: main_def to_csv_def dest: conn_post_csv_except)
  next
    case (Inr v)
    with p have "calm env 0 tr1" by (auto dest: conn_post_Inr)
    with Inr jp show ?thesis
      by (auto simp: main_def to_csv_def Let_def calm_append intro!: conn_post_calm
          split: option.splits sum.splits)
  qed
qed

text \<open>
  C7: take any request of a run, be it the count request, the full fetch or a rating
  lookup, and suppose the reply to it is a connection error. Then nothing follows that
  request in the trace of the run (no second attempt, no other request, no file), and the
  program exits with the text of the error followed by the hint
  \<open>Base URL invalid, please try again\<close>.
\<close>

theorem connection_error_is_fatal:
  assumes "snd (main env) = tr0 @ Request url ps # rest"
    and "server env (ncalls tr0) ps = Raises (ConnectionError e)"
  shows "rest = [] \<and> fst (main env) = Inl (SystemExit (e @ [NL] @ ''Base URL invalid, please try again''))"
proof -
  have nc: "\<not> calm env 0 (snd (main env))"
    using assms by (simp add: calm_append)
  with main_conn [of env] obtain tr0' url' ps' e' where
    t: "snd (main env) = tr0' @ [Request url' ps']" and c: "calm env 0 tr0'"
    and r: "fst (main env) = Inl (SystemExit (e' @ [NL] @ ''Base URL invalid, please try again''))"
    and s: "server env (ncalls tr0') ps' = Raises (ConnectionError e')"
    by (auto simp: conn_post_def)
  have "rest = []"
  proof (rule ccontr)
    assume "rest \<noteq> []"
    then obtain rest' ev where "rest = rest' @ [ev]"
      by (cases rest rule: rev_cases) auto
    with t assms(1) have "tr0' = tr0 @ Request url ps # rest'"
      by simp
    with c assms(2) show False
      by (simp add: calm_append)
  qed
  with t assms(1) have "tr0' = tr0" "ps' = ps" by simp_all
  with s assms(2) have "e' = e" by simp
  with r \<open>rest = []\<close> show ?thesis by simp
qed

theorem connection_error_is_fatal_witness:
  "snd (main offline_env) = start_trace offline_env (Some 1) @ Request (BASE_URL offline_env) (rating_params offline_env ''42'') # []
   \<and> server offline_env (ncalls (start_trace offline_env (Some 1))) (rating_params offline_env ''42'')
        = Raises (ConnectionError ''Max retries exceeded'')
   \<and> fst (main offline_env) = Inl (SystemExit (''Max retries exceeded'' @ [NL] @ ''Base URL invalid, please try again''))"
proof -
  have h1: "snd (main offline_env) = start_trace offline_env (Some 1)
              @ Request (BASE_URL offline_env) (rating_params offline_env ''42'') # []"
    by code_simp
  have h2: "server offline_env (ncalls (start_trace offline_env (Some 1))) (rating_params offline_env ''42'')
        = Raises (ConnectionError ''Max retries exceeded'')"
    by code_simp
  show ?thesis using connection_error_is_fatal [OF h1 h2] h1 h2 by simp
qed

section \<open>Deduplication\<close>

text \<open>Offering the rows one by one to a list, as the loop does, leaves the list followed by
  the new rows in first-seen order.\<close>

lemma foldl_offer: "foldl offer acc xs = acc @ filter (\<lambda>x. x \<notin> set acc) (first_seen xs)"
proof (induction xs arbitrary: acc)
  case Nil
  then show ?case by simp
next
  case (Cons x xs)
  show ?case
  proof (cases "x \<in> set acc")
    case True
    have "filter (\<lambda>y. y \<notin> set acc) (filter (\<lambda>y. y \<noteq> x) (first_seen xs)) = filter (\<lambda>y. y \<notin> set acc) (first_seen xs)"
      using True by (auto intro: filter_cong)
    with True Cons show ?thesis by (simp add: offer_def)
  next
    case False
    have "filter (\<lambda>y. y \<notin> set (acc @ [x])) (first_seen xs) = filter (\<lambda>y. y \<notin> set acc) (filter (\<lambda>y. y \<noteq> x) (first_seen xs))"
      by (auto intro: filter_cong)
    with False Cons show ?thesis by (simp add: offer_def)
  qed
qed

lemma foldl_offer_Nil: "foldl offer [] xs = first_seen xs"
  by (simp add: foldl_offer)

lemma set_first_seen [simp]: "set (first_seen xs) = set xs"
  by (induction xs) auto

lemma distinct_first_seen [simp]: "distinct (first_seen xs)"
  by (induction xs) auto

lemma length_first_seen: "length (first_seen xs) = card (set xs)"
  using distinct_card [OF distinct_first_seen, of xs] by simp

section \<open>Reading the records\<close>

text \<open>A field can be read only from an object inside the array at \<open>response.data.data\<close>,
  at an index within the array.\<close>

lemma foldl_getitem_Inr: "foldl getitem (Inr v) ks = Inr w \<longleftrightarrow> at_path v ks = Some w"
  by (induction v ks rule: at_path.induct) (auto split: option.splits simp: not_subscriptable_def)

lemma getitem_Inr: "getitem x key = Inr v \<Longrightarrow> \<exists>r. x = Inr r \<and> at_path r [key] = Some v"
  by (cases "(x, key)" rule: getitem.cases) (auto split: option.splits simp: not_subscriptable_def)

lemma getindex_Inr:
  assumes "getitem (getindex x c) key = Inr v"
  shows "\<exists>rs. x = Inr (JArr rs) \<and> c < length rs \<and> at_path (rs ! c) [key] = Some v"
proof -
  from getitem_Inr [OF assms] obtain r where r: "getindex x c = Inr r" and a: "at_path r [key] = Some v"
    by blast
  from a obtain kvs where "r = JObj kvs" by (cases r) auto
  with r a show ?thesis
    by (cases "(x, c)" rule: getindex.cases) (auto split: if_splits simp: not_subscriptable_def)
qed

lemma field_Inr:
  assumes "field j c key = Inr v"
  shows "c < length (records j) \<and> fld (records j ! c) key = v"
proof -
  from assms obtain rs where x: "foldl getitem (Inr j) [''response'', ''data'', ''data''] = Inr (JArr rs)"
    and c: "c < length rs" and a: "at_path (rs ! c) [key] = Some v"
    using getindex_Inr [of "foldl getitem (Inr j) [''response'', ''data'', ''data'']" c key v]
    by (auto simp: field_eq)
  from x have "records j = rs"
    by (simp add: foldl_getitem_Inr records_def del: foldl.simps)
  with c a show ?thesis by (simp add: fld_def)
qed

lemma py_int_field_Inr:
  assumes "py_int (field j c key) = Inr t"
  shows "py_int (Inr (fld (records j ! c) key)) = Inr t"
proof (cases "field j c key")
  case (Inl e)
  with assms show ?thesis by simp
next
  case (Inr v)
  with field_Inr [OF Inr] assms show ?thesis by simp
qed

section \<open>The loop\<close>

text \<open>One pass that does not raise: nothing for a record that is not watched; one lookup,
  one row offered and one spinner update for a record that is.\<close>

lemma add_movie_Inr:
  assumes "add_movie env j c m tr = (Inr m1, tr1)"
  shows "c < length (records j) \<and> m1 = offer m (export_row env (ncalls tr) (records j ! c))
     \<and> (\<exists>s. tr1 = tr @ [lookup_request env (records j ! c), SpinnerStart s])"
proof -
  let ?r = "records j ! c"
  from assms obtain n y k rating10 t wd tr0 where
    n: "field j c ''title'' = Inr n" and y: "field j c ''year'' = Inr y"
    and k: "field j c ''rating_key'' = Inr k"
    and rh: "rating_handler env (py_str k) tr = (Inr rating10, tr0)"
    and t: "py_int (field j c ''date'') = Inr t" and wd: "localdate env t = Inr wd"
    and m1: "m1 = offer m (render_title (py_str n) @ '','' @ py_str y @ '','' @ py_str rating10 @ '','' @ wd)"
    and tr1: "tr1 = tr0 @ [SpinnerStart (str_nat (length m1) @ '' -> '' @ render_title (py_str n))]"
    by (auto simp: add_movie_def Let_def split: sum.splits prod.splits)
  from field_Inr [OF n] have c: "c < length (records j)" and fn: "fld ?r ''title'' = n" by simp_all
  from field_Inr [OF y] have fy: "fld ?r ''year'' = y" by simp
  from field_Inr [OF k] have fk: "fld ?r ''rating_key'' = k" by simp
  from rh obtain jr where b: "server env (ncalls tr) (rating_params env (py_str k)) = Body jr"
    and ro: "rating_of jr = Inr rating10"
    and tr0: "tr0 = tr @ [Request (BASE_URL env) (rating_params env (py_str k))]"
    by (auto simp: rating_handler_eq split: reply.splits)
  have fr: "rating_for env (ncalls tr) ?r = rating10"
    using b ro fk by (simp add: rating_for_def)
  have fd: "date_of env ?r = wd"
    using py_int_field_Inr [OF t] wd by (simp add: date_of_def)
  have "export_row env (ncalls tr) ?r
        = render_title (py_str n) @ '','' @ py_str y @ '','' @ py_str rating10 @ '','' @ wd"
    using fn fy fr fd by (simp add: export_row_def)
  with m1 c tr1 tr0 fk show ?thesis by (simp add: lookup_request_def)
qed

lemma visit_Inr:
  assumes "visit env j c m tr = (Inr m1, tr1)"
  shows "c < length (records j)
     \<and> (if watched (records j ! c)
         then m1 = offer m (export_row env (ncalls tr) (records j ! c))
              \<and> (\<exists>s. tr1 = tr @ [lookup_request env (records j ! c), SpinnerStart s])
         else m1 = m \<and> tr1 = tr)"
proof -
  from assms obtain s where s: "field j c ''watched_status'' = Inr s"
    by (auto simp: visit_def split: sum.splits)
  from field_Inr [OF s] have c: "c < length (records j)" and w: "watched (records j ! c) = eq_one s"
    by (simp_all add: watched_def)
  show ?thesis
  proof (cases "eq_one s")
    case True
    with assms s have "add_movie env j c m tr = (Inr m1, tr1)" by (simp add: visit_def)
    from add_movie_Inr [OF this] True w show ?thesis by simp
  next
    case False
    with assms s w c show ?thesis by (simp add: visit_def)
  qed
qed

lemma candidates_Nil [simp]: "candidates env k [] = []"
  by (simp add: candidates_def)

lemma candidates_Cons:
  "candidates env k (r # rs) =
     (if watched r then export_row env k r # candidates env (Suc k) rs else candidates env k rs)"
  by (simp add: candidates_def)

lemma length_candidates: "length (candidates env k rs) = length (filter watched rs)"
  by (simp add: candidates_def)

lemma is_request_lookup [simp]: "is_request (lookup_request env r)"
  by (simp add: lookup_request_def)

lemma ncalls_lookup [simp]: "ncalls (lookup_request env r # tr) = Suc (ncalls tr)"
  by (simp add: lookup_request_def)

lemma take_drop_step:
  "c < length xs \<Longrightarrow> take (Suc n) (drop c xs) = xs ! c # take n (drop (Suc c) xs)"
  by (simp add: Cons_nth_drop_Suc [symmetric])

text \<open>The loop returns only from a count below \<open>total_count\<close>, having visited the records
  from \<open>count\<close> up to \<open>total_count - 1\<close>, which must all exist.\<close>

lemma while_loop_Returned:
  "while_loop env tc j c m tr = (Inr (Returned m'), tr') \<Longrightarrow>
     int c < tc \<and> nat tc \<le> length (records j)
     \<and> m' = foldl offer m (candidates env (ncalls tr) (take (nat tc - c) (drop c (records j))))
     \<and> filter is_request tr' =
         filter is_request tr @ map (lookup_request env) (filter watched (take (nat tc - c) (drop c (records j))))"
proof (induction env tc j c m tr rule: while_loop.induct)
  case (1 env tc j c m tr)
  let ?recs = "records j"
  let ?r = "?recs ! c"
  from "1.prems" have le: "int c \<le> tc"
    by (subst (asm) while_loop.simps) (auto split: if_splits)
  from "1.prems" le obtain m1 tr1 where v: "visit env j c m tr = (Inr m1, tr1)"
    by (subst (asm) while_loop.simps) (auto split: sum.splits prod.splits)
  from visit_Inr [OF v] have c: "c < length ?recs"
    and w: "watched ?r \<Longrightarrow> m1 = offer m (export_row env (ncalls tr) ?r)
              \<and> (\<exists>s. tr1 = tr @ [lookup_request env ?r, SpinnerStart s])"
    and nw: "\<not> watched ?r \<Longrightarrow> m1 = m \<and> tr1 = tr"
    by (auto split: if_splits)
  have m1: "m1 = foldl offer m (candidates env (ncalls tr) [?r])"
    using w nw by (cases "watched ?r") (simp_all add: candidates_Cons)
  have n1: "ncalls tr1 = (if watched ?r then Suc (ncalls tr) else ncalls tr)"
    using w nw by (cases "watched ?r") auto
  have q1: "filter is_request tr1 = filter is_request tr @ map (lookup_request env) (filter watched [?r])"
    using w nw by (cases "watched ?r") auto
  show ?case
  proof (cases "int (c + 1) = tc")
    case True
    with "1.prems" le v have res: "m' = m1" "tr' = tr1 @ [SpinnerStop]"
      by (subst (asm) while_loop.simps, simp)+
    from True have n: "nat tc - c = Suc 0" by auto
    have seg: "take (nat tc - c) (drop c ?recs) = [?r]"
      using c n by (simp add: take_drop_step)
    from True c have "nat tc \<le> length ?recs" by auto
    with True res m1 q1 seg show ?thesis by auto
  next
    case False
    with "1.prems" le v have rec: "while_loop env tc j (c + 1) m1 tr1 = (Inr (Returned m'), tr')"
      by (subst (asm) while_loop.simps) simp
    from "1.IH" [OF le v [symmetric] refl False rec]
    have lt: "int (c + 1) < tc" and len: "nat tc \<le> length ?recs"
      and m': "m' = foldl offer m1 (candidates env (ncalls tr1) (take (nat tc - (c + 1)) (drop (c + 1) ?recs)))"
      and q: "filter is_request tr' = filter is_request tr1
                @ map (lookup_request env) (filter watched (take (nat tc - (c + 1)) (drop (c + 1) ?recs)))"
      by simp_all
    from lt have n: "nat tc - c = Suc (nat tc - (c + 1))" by auto
    have seg: "take (nat tc - c) (drop c ?recs) = ?r # take (nat tc - (c + 1)) (drop (c + 1) ?recs)"
      using c n by (simp add: take_drop_step)
    have "m' = foldl offer m (candidates env (ncalls tr) (take (nat tc - c) (drop c ?recs)))"
      using m' m1 n1 by (simp add: seg candidates_Cons)
    moreover have "filter is_request tr' =
         filter is_request tr @ map (lookup_request env) (filter watched (take (nat tc - c) (drop c ?recs)))"
      using q q1 by (simp add: seg)
    ultimately show ?thesis using lt len by simp
  qed
qed

text \<open>The loop runs out of its condition only when \<open>total_count\<close> is not above the
  count it started from; from 0, when \<open>total_count\<close> is not positive. So a pass of the
  \<open>for\<close> loop that does not return is never followed by one that does.\<close>

lemma while_loop_Exhausted:
  "while_loop env tc j c m tr = (Inr (Exhausted m'), tr') \<Longrightarrow> tc \<le> int c"
proof (induction env tc j c m tr rule: while_loop.induct)
  case (1 env tc j c m tr)
  show ?case
  proof (cases "int c \<le> tc")
    case False
    then show ?thesis by simp
  next
    case True
    from "1.prems" True obtain m1 tr1 where v: "visit env j c m tr = (Inr m1, tr1)"
      by (subst (asm) while_loop.simps) (auto split: sum.splits prod.splits)
    from "1.prems" True v have ne: "int (c + 1) \<noteq> tc"
      by (subst (asm) while_loop.simps) (auto split: if_splits)
    with "1.prems" True v have rec: "while_loop env tc j (c + 1) m1 tr1 = (Inr (Exhausted m'), tr')"
      by (subst (asm) while_loop.simps) simp
    from "1.IH" [OF True v [symmetric] refl ne rec] ne show ?thesis by simp
  qed
qed

lemma for_loop_Some:
  "for_loop env tco j n m tr = (Inr (Some (ms, len)), tr') \<Longrightarrow>
     \<exists>tc. tco = Some tc \<and> while_loop env tc j 0 m tr = (Inr (Returned ms), tr') \<and> len = length ms"
proof (induction n arbitrary: m tr)
  case 0
  then show ?case by simp
next
  case (Suc n)
  from Suc.prems obtain tc where tc: "tco = Some tc"
    by (cases tco) auto
  obtain r tr1 where w: "while_loop env tc j 0 m tr = (r, tr1)"
    by (cases "while_loop env tc j 0 m tr")
  show ?case
  proof (cases r)
    case (Inl e)
    with Suc.prems tc w show ?thesis by simp
  next
    case (Inr le)
    show ?thesis
    proof (cases le)
      case (Returned m1)
      with Suc.prems tc w Inr show ?thesis by auto
    next
      case (Exhausted m1)
      with w Inr have "while_loop env tc j 0 m tr = (Inr (Exhausted m1), tr1)" by simp
      from while_loop_Exhausted [OF this] have "tc \<le> 0" by simp
      moreover from Suc.prems tc w Inr Exhausted
      have "for_loop env tco j n m1 tr1 = (Inr (Some (ms, len)), tr')" by simp
      from Suc.IH [OF this] tc obtain "while_loop env tc j 0 m1 tr1 = (Inr (Returned ms), tr')"
        by auto
      from while_loop_Returned [OF this] have "0 < tc" by simp
      ultimately show ?thesis by simp
    qed
  qed
qed

lemma csv_writerow_Inr:
  "csv_writerow row = Inr l \<Longrightarrow> (\<forall>f \<in> set row. NL \<notin> set f \<and> CR \<notin> set f) \<and> l = join [NL] row @ [CR, NL]"
  by (auto simp: csv_writerow_def list_ex_iff split: if_splits)

lemma csv_writerow_header: "csv_writerow [header] = Inr (header @ [CR, NL])"
  by (simp add: csv_writerow_def header_def NL_def CR_def)

lemma written_append [simp]: "written (tr @ tr2) = written tr @ written tr2"
  by (induction tr rule: written.induct) auto

lemma written_no_file: "\<not> list_ex is_file_event tr \<Longrightarrow> written tr = []"
  by (induction tr rule: written.induct) auto

section \<open>Runs that end normally\<close>
lemma main_Inr:
  assumes "server env 0 (count_params env) = Body j0" and "length_of j0 = Inr (Some tc)"
    and "server env 1 (fetch_params env (Some tc)) = Body j1" and "fst (main env) = Inr ()"
  shows "\<exists>movies tr1 len.
      while_loop env tc j1 0 [] (start_trace env (Some tc)) = (Inr (Returned movies), tr1)
      \<and> (\<forall>f \<in> set movies. NL \<notin> set f \<and> CR \<notin> set f)
      \<and> snd (main env) = tr1 @ [FileOpen (FILE_NAME env), FileWrite (header @ [CR, NL]),
            FileWrite (join [NL] movies @ [CR, NL]), FileClose,
            Print (''Exported '' @ str_nat len @ '' filtered movies to '' @ FILE_NAME env @ ''.'')]"
proof -
  obtain r tr1 where jp: "json_parser env [] = (r, tr1)"
    by (cases "json_parser env []")
  from assms(4) jp obtain movies len l2 where r: "r = Inr (Some (movies, len))"
    and l2: "csv_writerow movies = Inr l2"
    and tr: "snd (main env) = tr1 @ [FileOpen (FILE_NAME env), FileWrite (header @ [CR, NL]),
            FileWrite l2, FileClose,
            Print (''Exported '' @ str_nat len @ '' filtered movies to '' @ FILE_NAME env @ ''.'')]"
    by (auto simp: main_def to_csv_def Let_def csv_writerow_header split: sum.splits option.splits)
  from jp r assms(1-3) obtain n where "for_loop env (Some tc) j1 n [] (start_trace env (Some tc)) = (Inr (Some (movies, len)), tr1)"
    by (auto simp: json_parser_eq split: sum.splits prod.splits)
  from for_loop_Some [OF this]
  have "while_loop env tc j1 0 [] (start_trace env (Some tc)) = (Inr (Returned movies), tr1)"
    by simp
  with csv_writerow_Inr [OF l2] tr show ?thesis by blast
qed

lemma ncalls_start [simp]: "ncalls (start_trace env tc) = 2"
  by (simp add: start_trace_def)

lemma requests_start [simp]:
  "filter is_request (start_trace env tc) =
     [Request (BASE_URL env) (count_params env), Request (BASE_URL env) (fetch_params env tc)]"
  by (simp add: start_trace_def)

lemma file_start [simp]: "\<not> list_ex is_file_event (start_trace env tc)"
  by (simp add: start_trace_def)

lemma main_rows:
  assumes "server env 0 (count_params env) = Body j0" and "length_of j0 = Inr (Some tc)"
    and "server env 1 (fetch_params env (Some tc)) = Body j1" and "fst (main env) = Inr ()"
  shows "file_content (snd (main env)) =
           Some (header @ [CR, NL] @ join [NL] (first_seen (candidates env 2 (take (nat tc) (records j1)))) @ [CR, NL])"
    and "\<forall>f \<in> set (first_seen (candidates env 2 (take (nat tc) (records j1)))). NL \<notin> set f \<and> CR \<notin> set f"
    and "filter is_request (snd (main env)) =
           [Request (BASE_URL env) (count_params env), Request (BASE_URL env) (fetch_params env (Some tc))]
           @ map (lookup_request env) (filter watched (take (nat tc) (records j1)))"
    and "0 < tc" and "nat tc \<le> length (records j1)"
proof -
  from main_Inr [OF assms] obtain movies tr1 len where
    w: "while_loop env tc j1 0 [] (start_trace env (Some tc)) = (Inr (Returned movies), tr1)"
    and nb: "\<forall>f \<in> set movies. NL \<notin> set f \<and> CR \<notin> set f"
    and tr: "snd (main env) = tr1 @ [FileOpen (FILE_NAME env), FileWrite (header @ [CR, NL]),
            FileWrite (join [NL] movies @ [CR, NL]), FileClose,
            Print (''Exported '' @ str_nat len @ '' filtered movies to '' @ FILE_NAME env @ ''.'')]"
    by blast
  from while_loop_Returned [OF w]
  have tc: "0 < tc" and len: "nat tc \<le> length (records j1)"
    and m: "movies = first_seen (candidates env 2 (take (nat tc) (records j1)))"
    and q: "filter is_request tr1 =
           [Request (BASE_URL env) (count_params env), Request (BASE_URL env) (fetch_params env (Some tc))]
           @ map (lookup_request env) (filter watched (take (nat tc) (records j1)))"
    by (simp_all add: foldl_offer_Nil)
  have nf: "\<not> list_ex is_file_event tr1"
    using while_loop_file [of env tc j1 0 "[]" "start_trace env (Some tc)"] w by simp
  show "file_content (snd (main env)) =
           Some (header @ [CR, NL] @ join [NL] (first_seen (candidates env 2 (take (nat tc) (records j1)))) @ [CR, NL])"
    using tr m nf by (simp add: file_content_def written_no_file)
  show "\<forall>f \<in> set (first_seen (candidates env 2 (take (nat tc) (records j1)))). NL \<notin> set f \<and> CR \<notin> set f"
    using nb m by simp
  show "filter is_request (snd (main env)) =
           [Request (BASE_URL env) (count_params env), Request (BASE_URL env) (fetch_params env (Some tc))]
           @ map (lookup_request env) (filter watched (take (nat tc) (records j1)))"
    using tr q by simp
  show "0 < tc" by (rule tc)
  show "nat tc \<le> length (records j1)" by (rule len)
qed

section \<open>The lines of the file\<close>

lemma lines_from_no_break:
  "NL \<notin> set s \<Longrightarrow> CR \<notin> set s \<Longrightarrow> lines_from cur (s @ rest) = lines_from (rev s @ cur) rest"
  by (induction s arbitrary: cur) auto

lemma lines_from_row:
  assumes "NL \<notin> set s" and "CR \<notin> set s"
  shows "lines_from [] (s @ NL # rest) = s # lines_from [] rest"
    and "lines_from [] (s @ CR # NL # rest) = s # lines_from [] rest"
  using assms by (simp_all add: lines_from_no_break NL_def CR_def)

lemma lines_join:
  "\<forall>f \<in> set rows. NL \<notin> set f \<and> CR \<notin> set f \<Longrightarrow> rows \<noteq> [] \<Longrightarrow>
     lines_from [] (join [NL] rows @ [CR, NL]) = rows"
proof (induction "[NL]" rows rule: join.induct)
  case 1
  then show ?case by simp
next
  case (2 x)
  then show ?case using lines_from_row(2) [of x "[]"] by simp
next
  case (3 x y ys)
  then show ?case using lines_from_row(1) [of x "join [NL] (y # ys) @ [CR, NL]"] by simp
qed

lemma header_no_break: "NL \<notin> set header" "CR \<notin> set header"
  by (simp_all add: header_def NL_def CR_def)

lemma splitlines_file:
  assumes "\<forall>f \<in> set rows. NL \<notin> set f \<and> CR \<notin> set f"
  shows "splitlines (header @ [CR, NL] @ join [NL] rows @ [CR, NL])
           = (if rows = [] then [header, []] else header # rows)"
proof -
  have "splitlines (header @ [CR, NL] @ join [NL] rows @ [CR, NL])
          = header # lines_from [] (join [NL] rows @ [CR, NL])"
    using lines_from_row(2) [OF header_no_break, of "join [NL] rows @ [CR, NL]"]
    by (simp add: splitlines_def)
  also have "lines_from [] (join [NL] rows @ [CR, NL]) = (if rows = [] then [[]] else rows)"
    using lines_join [OF assms] by (simp add: NL_def CR_def)
  finally show ?thesis by simp
qed

section \<open>What is exported\<close>

text \<open>
  C4, as the specification states it: every fetched record with \<open>watched_status\<close> equal
  to 1 gets exactly one candidate row. The loop returns as soon as \<open>count\<close> equals
  \<open>total_count\<close>. When the count reply says 1 and the response holds two records, the
  second is never read: it is watched, the run ends normally, and yet no rating is
  requested and no row is written for it.
\<close>

theorem watched_filter_counterexample:
  "server short_env 1 (fetch_params short_env (Some 1)) = Body short_history
   \<and> length (records short_history) = 2
   \<and> field short_history 1 ''watched_status'' = Inr (JInt 1)
   \<and> eq_one (JInt 1)
   \<and> fst (main short_env) = Inr ()
   \<and> filter is_request (snd (main short_env)) =
       [Request (BASE_URL short_env) (count_params short_env),
        Request (BASE_URL short_env) (fetch_params short_env (Some 1))]
   \<and> file_content (snd (main short_env)) = Some (header @ [CR, NL, CR, NL])"
  by code_simp

text \<open>
  C4, amended: the claim holds of the first \<open>total_count\<close> records of the response, the
  only ones the loop reads. A pass over a record whose \<open>watched_status\<close> does not equal 1
  leaves the list of rows and the trace as they were: no rating is requested, no row is
  built. A pass over a record whose \<open>watched_status\<close> equals 1 that does not raise
  requests its rating once and offers exactly one row, the one the record renders to, to
  the deduplicated list. Over a whole run that ends normally the first \<open>total_count\<close>
  records all exist, the rating lookups are, in order, those of the watched records
  among them, one each, and the file holds the rows of these records and nothing of any
  other record. The comparison is Python's \<open>== 1\<close>: the integer 1 is watched, the string
  \<open>"1"\<close> is not.
\<close>

theorem watched_filter:
  "(field j c ''watched_status'' = Inr s \<and> \<not> eq_one s \<longrightarrow> visit env j c m tr = (Inr m, tr))
   \<and> (field j c ''watched_status'' = Inr s \<and> eq_one s \<and> visit env j c m tr = (Inr m1, tr1) \<longrightarrow>
        m1 = offer m (export_row env (ncalls tr) (records j ! c))
        \<and> (\<exists>sp. tr1 = tr @ [lookup_request env (records j ! c), SpinnerStart sp]))
   \<and> (server env 0 (count_params env) = Body j0 \<and> length_of j0 = Inr (Some tc)
        \<and> server env 1 (fetch_params env (Some tc)) = Body j1 \<and> fst (main env) = Inr () \<longrightarrow>
        nat tc \<le> length (records j1)
        \<and> filter is_request (snd (main env)) =
             [Request (BASE_URL env) (count_params env), Request (BASE_URL env) (fetch_params env (Some tc))]
             @ map (lookup_request env) (filter watched (take (nat tc) (records j1)))
        \<and> file_content (snd (main env)) =
             Some (header @ [CR, NL]
                     @ join [NL] (first_seen (candidates env 2 (take (nat tc) (records j1)))) @ [CR, NL]))
   \<and> eq_one (JInt 1) \<and> \<not> eq_one (JStr ''1'')"
proof (intro conjI impI)
  assume "field j c ''watched_status'' = Inr s \<and> \<not> eq_one s"
  then show "visit env j c m tr = (Inr m, tr)"
    by (simp add: visit_def)
next
  assume a: "field j c ''watched_status'' = Inr s \<and> eq_one s \<and> visit env j c m tr = (Inr m1, tr1)"
  then have w: "watched (records j ! c)"
    using field_Inr [of j c "''watched_status''" s] by (simp add: watched_def)
  from a have v: "visit env j c m tr = (Inr m1, tr1)" by simp
  from visit_Inr [OF v] w show "m1 = offer m (export_row env (ncalls tr) (records j ! c))"
    and "\<exists>sp. tr1 = tr @ [lookup_request env (records j ! c), SpinnerStart sp]"
    by simp_all
next
  assume a: "server env 0 (count_params env) = Body j0 \<and> length_of j0 = Inr (Some tc)
        \<and> server env 1 (fetch_params env (Some tc)) = Body j1 \<and> fst (main env) = Inr ()"
  then have h: "server env 0 (count_params env) = Body j0" "length_of j0 = Inr (Some tc)"
      "server env 1 (fetch_params env (Some tc)) = Body j1" "fst (main env) = Inr ()"
    by simp_all
  show "nat tc \<le> length (records j1)"
    by (rule main_rows(5) [OF h])
  show "filter is_request (snd (main env)) =
             [Request (BASE_URL env) (count_params env), Request (BASE_URL env) (fetch_params env (Some tc))]
             @ map (lookup_request env) (filter watched (take (nat tc) (records j1)))"
    by (rule main_rows(3) [OF h])
  show "file_content (snd (main env)) =
             Some (header @ [CR, NL]
                     @ join [NL] (first_seen (candidates env 2 (take (nat tc) (records j1)))) @ [CR, NL])"
    by (rule main_rows(1) [OF h])
next
  show "eq_one (JInt 1)" by simp
next
  show "\<not> eq_one (JStr ''1'')" by simp
qed

theorem watched_filter_witness:
  "field three_entries 1 ''watched_status'' = Inr (JInt 0)
   \<and> visit three_env three_entries 1 [] (start_trace three_env (Some 3)) = (Inr [], start_trace three_env (Some 3))
   \<and> field three_entries 0 ''watched_status'' = Inr (JInt 1)
   \<and> visit three_env three_entries 0 [] (start_trace three_env (Some 3)) =
       (Inr [[DQ] @ ''Movie, The Sequel'' @ [DQ] @ '',1999,8,2023-11-14''],
        start_trace three_env (Some 3) @
        [lookup_request three_env (records three_entries ! 0),
         SpinnerStart (''1 -> '' @ [DQ] @ ''Movie, The Sequel'' @ [DQ])])
   \<and> offer [] (export_row three_env (ncalls (start_trace three_env (Some 3))) (records three_entries ! 0))
       = [[DQ] @ ''Movie, The Sequel'' @ [DQ] @ '',1999,8,2023-11-14'']
   \<and> filter is_request (snd (main three_env)) =
       [Request (BASE_URL three_env) (count_params three_env),
        Request (BASE_URL three_env) (fetch_params three_env (Some 3)),
        Request (BASE_URL three_env) (rating_params three_env ''42''),
        Request (BASE_URL three_env) (rating_params three_env ''42'')]"
proof -
  let ?tr = "start_trace three_env (Some 3)"
  let ?row = "[DQ] @ ''Movie, The Sequel'' @ [DQ] @ '',1999,8,2023-11-14''"
  let ?tr1 = "?tr @ [lookup_request three_env (records three_entries ! 0),
         SpinnerStart (''1 -> '' @ [DQ] @ ''Movie, The Sequel'' @ [DQ])]"
  have f1: "field three_entries 1 ''watched_status'' = Inr (JInt 0)"
    by code_simp
  have f0: "field three_entries 0 ''watched_status'' = Inr (JInt 1)"
    by code_simp
  have v0: "visit three_env three_entries 0 [] ?tr = (Inr [?row], ?tr1)"
    by code_simp
  have h1: "server three_env 0 (count_params three_env) = Body three_entries"
    by (simp add: three_env_def example_env_def)
  have h2: "length_of three_entries = Inr (Some 3)"
    by code_simp
  have h3: "server three_env 1 (fetch_params three_env (Some 3)) = Body three_entries"
    by (simp add: three_env_def example_env_def)
  have h4: "fst (main three_env) = Inr ()"
    by code_simp
  have q: "map (lookup_request three_env) (filter watched (take (nat 3) (records three_entries))) =
       [Request (BASE_URL three_env) (rating_params three_env ''42''),
        Request (BASE_URL three_env) (rating_params three_env ''42'')]"
    by code_simp
  have e: "eq_one (JInt 1)" "\<not> eq_one (JInt 0)"
    by simp_all
  from watched_filter [of three_entries 1 "JInt 0" three_env "[]" ?tr] f1 e
  have a: "visit three_env three_entries 1 [] ?tr = (Inr [], ?tr)"
    by blast
  from watched_filter [of three_entries 0 "JInt 1" three_env "[]" ?tr "[?row]" ?tr1] f0 e v0
  have b: "[?row] = offer [] (export_row three_env (ncalls ?tr) (records three_entries ! 0))"
    by blast
  from watched_filter [of _ _ _ three_env _ _ _ _ three_entries 3 three_entries] h1 h2 h3 h4
  have "filter is_request (snd (main three_env)) =
       [Request (BASE_URL three_env) (count_params three_env),
        Request (BASE_URL three_env) (fetch_params three_env (Some 3))]
       @ map (lookup_request three_env) (filter watched (take (nat 3) (records three_entries)))"
    by blast
  with q a b f1 f0 v0 show ?thesis by simp
qed

text \<open>
  C1, as the specification states it: after a run that ends normally the lines of the
  file are the header followed by one line per distinct row. With a history in which no
  record is watched there is no row, yet \<open>writerow\<close> of the empty list still writes a line
  terminator: the file is the header followed by an empty line.
\<close>

theorem export_file_counterexample:
  "fst (main unwatched_env) = Inr ()
   \<and> server unwatched_env 1 (fetch_params unwatched_env (Some 1)) = Body (JObj [(''response'', JObj [(''data'',
      JObj [(''recordsFiltered'', JInt 1),
            (''data'', JArr [JObj [(''watched_status'', JInt 0), (''title'', JStr ''Clean Title''),
               (''year'', JInt 1999), (''rating_key'', JInt 42), (''date'', JInt 1700000000)]])])])])
   \<and> candidates unwatched_env 2 [JObj [(''watched_status'', JInt 0), (''title'', JStr ''Clean Title''),
               (''year'', JInt 1999), (''rating_key'', JInt 42), (''date'', JInt 1700000000)]] = []
   \<and> file_content (snd (main unwatched_env)) = Some (header @ [CR, NL, CR, NL])
   \<and> splitlines (header @ [CR, NL, CR, NL]) = [header, []]
   \<and> splitlines (header @ [CR, NL, CR, NL]) \<noteq> header # first_seen []"
  by code_simp

text \<open>
  C1, amended: after a run that ends normally the file holds the header
  \<open>Title,Year,Rating10,WatchedDate\<close> and \<open>\r\n\<close>, then the rows joined by \<open>\n\<close>, then
  \<open>\r\n\<close>; the rows are the candidate rows of the watched records among the first
  \<open>total_count\<close> records of the response, deduplicated in first-seen order, so no row
  appears twice. Read as lines, that is the header followed by one line per distinct row
  when there is a row, and the header followed by one empty line when there is none.
\<close>

theorem export_file:
  assumes "server env 0 (count_params env) = Body j0" and "length_of j0 = Inr (Some tc)"
    and "server env 1 (fetch_params env (Some tc)) = Body j1" and "fst (main env) = Inr ()"
  shows "file_content (snd (main env)) =
           Some (header @ [CR, NL] @ join [NL] (first_seen (candidates env 2 (take (nat tc) (records j1)))) @ [CR, NL])
     \<and> distinct (first_seen (candidates env 2 (take (nat tc) (records j1))))
     \<and> set (first_seen (candidates env 2 (take (nat tc) (records j1)))) = set (candidates env 2 (take (nat tc) (records j1)))
     \<and> length (first_seen (candidates env 2 (take (nat tc) (records j1)))) = card (set (candidates env 2 (take (nat tc) (records j1))))
     \<and> splitlines (header @ [CR, NL] @ join [NL] (first_seen (candidates env 2 (take (nat tc) (records j1)))) @ [CR, NL])
         = (if candidates env 2 (take (nat tc) (records j1)) = [] then [header, []]
            else header # first_seen (candidates env 2 (take (nat tc) (records j1))))"
proof -
  let ?rows = "first_seen (candidates env 2 (take (nat tc) (records j1)))"
  have e: "(?rows = []) = (candidates env 2 (take (nat tc) (records j1)) = [])"
    by (metis set_first_seen set_empty)
  show ?thesis
    using main_rows(1) [OF assms] splitlines_file [OF main_rows(2) [OF assms]] e
    by (simp add: length_first_seen)
qed

theorem export_file_witness:
  "file_content (snd (main three_env)) =
     Some (header @ [CR, NL] @ [DQ] @ ''Movie, The Sequel'' @ [DQ] @ '',1999,8,2023-11-14'' @ [CR, NL])
   \<and> candidates three_env 2 (take (nat 3) (records three_entries)) =
       [[DQ] @ ''Movie, The Sequel'' @ [DQ] @ '',1999,8,2023-11-14'',
        [DQ] @ ''Movie, The Sequel'' @ [DQ] @ '',1999,8,2023-11-14'']
   \<and> splitlines (header @ [CR, NL] @ [DQ] @ ''Movie, The Sequel'' @ [DQ] @ '',1999,8,2023-11-14'' @ [CR, NL])
       = [header, [DQ] @ ''Movie, The Sequel'' @ [DQ] @ '',1999,8,2023-11-14'']"
proof -
  have h1: "server three_env 0 (count_params three_env) = Body three_entries"
    by (simp add: three_env_def example_env_def)
  have h2: "length_of three_entries = Inr (Some 3)"
    by code_simp
  have h3: "server three_env 1 (fetch_params three_env (Some 3)) = Body three_entries"
    by (simp add: three_env_def example_env_def)
  have h4: "fst (main three_env) = Inr ()"
    by code_simp
  have c: "candidates three_env 2 (take (nat 3) (records three_entries)) =
       [[DQ] @ ''Movie, The Sequel'' @ [DQ] @ '',1999,8,2023-11-14'',
        [DQ] @ ''Movie, The Sequel'' @ [DQ] @ '',1999,8,2023-11-14'']"
    by code_simp
  show ?thesis using export_file [OF h1 h2 h3 h4] c by simp
qed

end
